theory Spec2Isabelle
  imports Complex_Main "HOL-Library.Word" "HOL-Library.Signed_Division"
begin

section \<open>Data model\<close>

text \<open>
  \<open>glm::vec3\<close> and \<open>glm::uvec3\<close> are triples with components \<open>x\<close>, \<open>y\<close>, \<open>z\<close>.
  The \<open>float\<close> components are idealised as real numbers: arithmetic is exact, rounding
  to binary32, infinities and NaN are not modelled.  The components of \<open>glm::uvec3\<close> are
  \<open>unsigned int\<close>, modelled as 32-bit words whose arithmetic wraps around.
\<close>

datatype 'a tvec3 = vec3 (vx: 'a) (vy: 'a) (vz: 'a)

type_synonym fvec3 = "real tvec3"
type_synonym uvec3 = "32 word tvec3"

section \<open>Formatted input from a string stream\<close>

text \<open>
  \<open>std::istringstream\<close> as far as the loaders use it: the characters not yet read and
  the fail bit.  Once the fail bit is set every later extraction is a no-op that leaves
  its target variable as it was.
\<close>

record istream =
  buf :: string
  failbit :: bool

definition isspace :: "char \<Rightarrow> bool" where
  "isspace c \<longleftrightarrow> c = CHR '' '' \<or> c = CHR 0x09 \<or> c = CHR 0x0A \<or> c = CHR 0x0B
     \<or> c = CHR 0x0C \<or> c = CHR 0x0D"

definition isdigit :: "char \<Rightarrow> bool" where
  "isdigit c \<longleftrightarrow> 48 \<le> (of_char c :: nat) \<and> (of_char c :: nat) \<le> 57"

definition digit_val :: "char \<Rightarrow> nat" where
  "digit_val c = (of_char c :: nat) - 48"

text \<open>The value of a run of decimal digits, most significant first.\<close>

definition dec_value :: "string \<Rightarrow> nat" where
  "dec_value ds = foldl (\<lambda>n c. 10 * n + digit_val c) 0 ds"

definition skipws :: "string \<Rightarrow> string" where
  "skipws s = dropWhile isspace s"

text \<open>
  \<open>iss >> c\<close> for a \<open>char\<close>: skip white space, then take one character.  At the end of
  the buffer no character is stored: the variable keeps the value \<open>old\<close> it had, and the
  fail bit is set.
\<close>

definition extract_char :: "char \<Rightarrow> istream \<Rightarrow> char \<times> istream" where
  "extract_char old s =
     (if failbit s then (old, s)
      else case skipws (buf s) of
             [] \<Rightarrow> (old, \<lparr>buf = [], failbit = True\<rparr>)
           | c # cs \<Rightarrow> (c, \<lparr>buf = cs, failbit = False\<rparr>))"

text \<open>Looking at the next character of a buffer, and stepping over it.\<close>

definition starts_with :: "(char \<Rightarrow> bool) \<Rightarrow> string \<Rightarrow> bool" where
  "starts_with q s \<longleftrightarrow> s \<noteq> [] \<and> q (hd s)"

definition skip_if :: "(char \<Rightarrow> bool) \<Rightarrow> string \<Rightarrow> string" where
  "skip_if q s = (if starts_with q s then tl s else s)"

definition is_minus :: "char \<Rightarrow> bool" where
  "is_minus c \<longleftrightarrow> c = CHR ''-''"

definition is_sign :: "char \<Rightarrow> bool" where
  "is_sign c \<longleftrightarrow> c = CHR ''+'' \<or> c = CHR ''-''"

definition is_point :: "char \<Rightarrow> bool" where
  "is_point c \<longleftrightarrow> c = CHR ''.''"

definition is_exp_mark :: "char \<Rightarrow> bool" where
  "is_exp_mark c \<longleftrightarrow> c = CHR ''e'' \<or> c = CHR ''E''"

text \<open>
  The field of an unsigned decimal integer as \<open>std::num_get\<close> reads it (base 10, the
  default): an optional sign, then the digits.  Without a digit the value 0 is stored;
  a value above \<open>UINT_MAX\<close> stores \<open>UINT_MAX\<close>; both set the fail bit.  A minus sign
  negates the value modulo \<open>2^32\<close>.  The result is the stored value, the characters left,
  and whether the conversion succeeded.
\<close>

definition get_unsigned :: "string \<Rightarrow> 32 word \<times> string \<times> bool" where
  "get_unsigned s =
     (let negative = starts_with is_minus s;
          s1 = skip_if is_sign s;
          ds = takeWhile isdigit s1;
          rest = dropWhile isdigit s1;
          n = dec_value ds
      in if ds = [] then (0, rest, False)
         else if n > 4294967295 then (4294967295, rest, False)
         else (if negative then - of_nat n else of_nat n, rest, True))"

text \<open>
  The field of a floating-point number as \<open>std::num_get\<close> accumulates it: an optional
  sign, digits with at most one decimal point, and, once a digit has been seen, an
  exponent mark with an optional sign and digits.  The conversion fails, storing 0, when
  the mantissa has no digit or an exponent mark has no digit after it.

  The value of a field is its exact decimal value, within the range of binary32: a value
  whose nearest binary32 number is an infinity (a magnitude of \<open>2^128 - 2^103\<close> or more)
  stores \<open>FLT_MAX\<close> with the sign of the field and sets the fail bit; a magnitude above
  \<open>FLT_MAX\<close> and below that bound is rounded to \<open>FLT_MAX\<close>.  Rounding inside the range
  is not modelled.
\<close>

definition FLT_MAX :: real where
  "FLT_MAX = 340282346638528859811704183484516925440"

definition to_float :: "real \<Rightarrow> string \<Rightarrow> real \<times> string \<times> bool" where
  "to_float v rest =
     (if 340282356779733661637539395458142568448 \<le> abs v
      then (if v < 0 then - FLT_MAX else FLT_MAX, rest, False)
      else if FLT_MAX < abs v then (if v < 0 then - FLT_MAX else FLT_MAX, rest, True)
      else (v, rest, True))"

definition pow10 :: "bool \<Rightarrow> nat \<Rightarrow> real \<Rightarrow> real" where
  "pow10 neg e m = (if neg then m / 10 ^ e else m * 10 ^ e)"

definition get_float :: "string \<Rightarrow> real \<times> string \<times> bool" where
  "get_float s =
     (let negative = starts_with is_minus s;
          s1 = skip_if is_sign s;
          ip = takeWhile isdigit s1;
          s2 = dropWhile isdigit s1;
          has_dot = starts_with is_point s2;
          fp = (if has_dot then takeWhile isdigit (tl s2) else []);
          s3 = (if has_dot then dropWhile isdigit (tl s2) else s2);
          mant = real (dec_value ip) + real (dec_value fp) / 10 ^ length fp;
          sgn = (if negative then - 1 else 1)
      in if ip = [] \<and> fp = [] then (0, s3, False)
         else if starts_with is_exp_mark s3 then
           (let s4 = tl s3;
                eneg = starts_with is_minus s4;
                s5 = skip_if is_sign s4;
                ed = takeWhile isdigit s5;
                s6 = dropWhile isdigit s5
            in if ed = [] then (0, s6, False)
               else to_float (sgn * pow10 eneg (dec_value ed) mant) s6)
         else to_float (sgn * mant) s3)"

text \<open>
  \<open>iss >> v\<close> for a number, over a field reader \<open>rd\<close>.  With the fail bit set, or with
  nothing but white space left, nothing is stored and the variable keeps \<open>old\<close>.
\<close>

definition extract_num ::
  "(string \<Rightarrow> 'a \<times> string \<times> bool) \<Rightarrow> 'a \<Rightarrow> istream \<Rightarrow> 'a \<times> istream" where
  "extract_num rd old s =
     (if failbit s then (old, s)
      else case skipws (buf s) of
             [] \<Rightarrow> (old, \<lparr>buf = [], failbit = True\<rparr>)
           | c # cs \<Rightarrow>
               (case rd (c # cs) of
                  (v, rest, ok) \<Rightarrow> (v, \<lparr>buf = rest, failbit = \<not> ok\<rparr>)))"

definition extract_float :: "real \<Rightarrow> istream \<Rightarrow> real \<times> istream" where
  "extract_float = extract_num get_float"

definition extract_unsigned :: "32 word \<Rightarrow> istream \<Rightarrow> 32 word \<times> istream" where
  "extract_unsigned = extract_num get_unsigned"

section \<open>The mesh loaders\<close>

text \<open>
  \<open>std::getline\<close> until it fails: the lines of a file, without their newline
  characters.  A last line without a newline is a line when it is not empty.
\<close>

fun getlines :: "string \<Rightarrow> string \<Rightarrow> string list" where
  "getlines cur [] = (if cur = [] then [] else [cur])"
| "getlines cur (c # cs) =
     (if c = CHR 0x0A then cur # getlines [] cs else getlines (cur @ [c]) cs)"

text \<open>
  The locals of the loop body are declared without an initialiser.  Reading one that no
  extraction has stored into is undefined in C++; the model makes the value read a
  parameter, one record for each line of the file.
\<close>

record indet =
  i_type :: char
  i_x :: real
  i_y :: real
  i_z :: real
  i_a :: "32 word"
  i_b :: "32 word"
  i_c :: "32 word"

text \<open>One iteration of the loop of \<open>loadSMF\<close> (part1.cpp).\<close>

definition loadSMF_line ::
  "indet \<Rightarrow> string \<Rightarrow> fvec3 list \<times> uvec3 list \<Rightarrow> fvec3 list \<times> uvec3 list" where
  "loadSMF_line u line acc =
     (case acc of (vertices, faces) \<Rightarrow>
       if line = [] then (vertices, faces)
       else
         (case extract_char (i_type u) \<lparr>buf = line, failbit = False\<rparr> of (type, s1) \<Rightarrow>
           if type = CHR ''v'' then
             (case extract_float (i_x u) s1 of (x, s2) \<Rightarrow>
              case extract_float (i_y u) s2 of (y, s3) \<Rightarrow>
              case extract_float (i_z u) s3 of (z, s4) \<Rightarrow>
                (vertices @ [vec3 x y z], faces))
           else if type = CHR ''f'' then
             (case extract_unsigned (i_a u) s1 of (a, s2) \<Rightarrow>
              case extract_unsigned (i_b u) s2 of (b, s3) \<Rightarrow>
              case extract_unsigned (i_c u) s3 of (c, s4) \<Rightarrow>
                (vertices, faces @ [vec3 (a - 1) (b - 1) (c - 1)]))
           else (vertices, faces)))"

fun loadSMF_loop ::
  "(nat \<Rightarrow> indet) \<Rightarrow> nat \<Rightarrow> string list \<Rightarrow> fvec3 list \<times> uvec3 list
     \<Rightarrow> fvec3 list \<times> uvec3 list" where
  "loadSMF_loop ind i [] acc = acc"
| "loadSMF_loop ind i (line # rest) acc =
     loadSMF_loop ind (Suc i) rest (loadSMF_line (ind i) line acc)"

text \<open>
  \<open>loadSMF\<close>: the file system is a map from paths to contents, \<open>None\<close> for a path that
  cannot be opened.  The result is \<open>None\<close> where the source returns \<open>false\<close>, and the two
  output vectors where it returns \<open>true\<close>.
\<close>

definition loadSMF ::
  "(nat \<Rightarrow> indet) \<Rightarrow> (string \<rightharpoonup> string) \<Rightarrow> string \<Rightarrow> (fvec3 list \<times> uvec3 list) option" where
  "loadSMF ind fs filename =
     (case fs filename of
        None \<Rightarrow> None
      | Some content \<Rightarrow> Some (loadSMF_loop ind 0 (getlines [] content) ([], [])))"

text \<open>One iteration of the loop of \<open>load_smf\<close> (part2.cpp).\<close>

definition load_smf_line ::
  "indet \<Rightarrow> string \<Rightarrow> fvec3 list \<times> uvec3 list \<Rightarrow> fvec3 list \<times> uvec3 list" where
  "load_smf_line u line acc =
     (case acc of (positions, faces) \<Rightarrow>
       if length line = 0 then (positions, faces)
       else
         (case extract_char (i_type u) \<lparr>buf = line, failbit = False\<rparr> of (t, s1) \<Rightarrow>
           if t = CHR ''v'' then
             (case extract_float (i_x u) s1 of (x, s2) \<Rightarrow>
              case extract_float (i_y u) s2 of (y, s3) \<Rightarrow>
              case extract_float (i_z u) s3 of (z, s4) \<Rightarrow>
                (positions @ [vec3 x y z], faces))
           else if t = CHR ''f'' then
             (case extract_unsigned (i_a u) s1 of (a, s2) \<Rightarrow>
              case extract_unsigned (i_b u) s2 of (b, s3) \<Rightarrow>
              case extract_unsigned (i_c u) s3 of (c, s4) \<Rightarrow>
                (positions, faces @ [vec3 (a - 1) (b - 1) (c - 1)]))
           else (positions, faces)))"

fun load_smf_loop ::
  "(nat \<Rightarrow> indet) \<Rightarrow> nat \<Rightarrow> string list \<Rightarrow> fvec3 list \<times> uvec3 list
     \<Rightarrow> fvec3 list \<times> uvec3 list" where
  "load_smf_loop ind i [] acc = acc"
| "load_smf_loop ind i (line # rest) acc =
     load_smf_loop ind (Suc i) rest (load_smf_line (ind i) line acc)"

definition load_smf ::
  "(nat \<Rightarrow> indet) \<Rightarrow> (string \<rightharpoonup> string) \<Rightarrow> string \<Rightarrow> (fvec3 list \<times> uvec3 list) option" where
  "load_smf ind fs filename =
     (case fs filename of
        None \<Rightarrow> None
      | Some content \<Rightarrow> Some (load_smf_loop ind 0 (getlines [] content) ([], [])))"

section \<open>Vector arithmetic of the glm library\<close>

definition vadd :: "fvec3 \<Rightarrow> fvec3 \<Rightarrow> fvec3" where
  "vadd a b = vec3 (vx a + vx b) (vy a + vy b) (vz a + vz b)"

definition vsub :: "fvec3 \<Rightarrow> fvec3 \<Rightarrow> fvec3" where
  "vsub a b = vec3 (vx a - vx b) (vy a - vy b) (vz a - vz b)"

definition vmuls :: "fvec3 \<Rightarrow> real \<Rightarrow> fvec3" where
  "vmuls a k = vec3 (vx a * k) (vy a * k) (vz a * k)"

definition vdivs :: "fvec3 \<Rightarrow> real \<Rightarrow> fvec3" where
  "vdivs a k = vec3 (vx a / k) (vy a / k) (vz a / k)"

definition vneg :: "fvec3 \<Rightarrow> fvec3" where
  "vneg a = vec3 (- vx a) (- vy a) (- vz a)"

definition vzero :: fvec3 where
  "vzero = vec3 0 0 0"

definition glm_dot :: "fvec3 \<Rightarrow> fvec3 \<Rightarrow> real" where
  "glm_dot a b = vx a * vx b + vy a * vy b + vz a * vz b"

definition glm_cross :: "fvec3 \<Rightarrow> fvec3 \<Rightarrow> fvec3" where
  "glm_cross a b =
     vec3 (vy a * vz b - vy b * vz a) (vz a * vx b - vz b * vx a) (vx a * vy b - vx b * vy a)"

text \<open>
  \<open>glm::normalize (v)\<close> is \<open>v * inversesqrt (dot (v, v))\<close>.  For the zero vector the code
  computes \<open>0 * infinity\<close>, a NaN in each component, which the reals do not have: the
  value of \<open>glm_normalize\<close> at the zero vector stands for no value of the program, and
  every property below that speaks of a normalised vector is stated for a vector that is
  not zero.
\<close>

definition glm_inversesqrt :: "real \<Rightarrow> real" where
  "glm_inversesqrt r = 1 / sqrt r"

definition glm_normalize :: "fvec3 \<Rightarrow> fvec3" where
  "glm_normalize v = vmuls v (glm_inversesqrt (glm_dot v v))"

definition glm_length :: "fvec3 \<Rightarrow> real" where
  "glm_length v = sqrt (glm_dot v v)"

definition glm_abs :: "fvec3 \<Rightarrow> fvec3" where
  "glm_abs v = vec3 (abs (vx v)) (abs (vy v)) (abs (vz v))"

text \<open>\<open>glm::radians\<close> multiplies by the library's constant for \<open>pi / 180\<close>.\<close>

definition glm_radians :: "real \<Rightarrow> real" where
  "glm_radians degrees = degrees * 0.01745329251994329576923690768489"

section \<open>Indexing a vector\<close>

text \<open>
  \<open>positions[i]\<close> with \<open>i\<close> beyond the size of the vector is undefined in C++.  The
  model makes it a fault that ends the computation.
\<close>

datatype fault = OutOfRange

definition face_in_range :: "nat \<Rightarrow> uvec3 \<Rightarrow> bool" where
  "face_in_range n f \<longleftrightarrow> unat (vx f) < n \<and> unat (vy f) < n \<and> unat (vz f) < n"

text \<open>The normal both programs compute for a face from its three corners.\<close>

definition face_normal :: "fvec3 \<Rightarrow> fvec3 \<Rightarrow> fvec3 \<Rightarrow> fvec3" where
  "face_normal p0 p1 p2 = glm_normalize (glm_cross (vsub p1 p0) (vsub p2 p0))"

section \<open>The flat variant (part1.cpp)\<close>

record Vertex =
  pos :: fvec3
  normal :: fvec3
  color :: fvec3

text \<open>The loop over the faces in \<open>main\<close>, appending three vertices for each face.\<close>

fun build_flat :: "fvec3 list \<Rightarrow> uvec3 list \<Rightarrow> Vertex list \<Rightarrow> fault + Vertex list" where
  "build_flat positions [] vertices = Inr vertices"
| "build_flat positions (f # fs) vertices =
     (if face_in_range (length positions) f then
        (let p0 = positions ! unat (vx f);
             p1 = positions ! unat (vy f);
             p2 = positions ! unat (vz f);
             n = glm_normalize (glm_cross (vsub p1 p0) (vsub p2 p0));
             c = glm_abs n
         in build_flat positions fs
              (vertices @ [\<lparr>pos = p0, normal = n, color = c\<rparr>,
                           \<lparr>pos = p1, normal = n, color = c\<rparr>,
                           \<lparr>pos = p2, normal = n, color = c\<rparr>]))
      else Inl OutOfRange)"

section \<open>The smooth variant (part2.cpp)\<close>

record Vertex_p2 =
  pos_p2 :: fvec3
  normal_p2 :: fvec3

text \<open>The first loop: one normal for each face.\<close>

fun compute_faceNormals :: "fvec3 list \<Rightarrow> uvec3 list \<Rightarrow> fault + fvec3 list" where
  "compute_faceNormals positions [] = Inr []"
| "compute_faceNormals positions (f # fs) =
     (if face_in_range (length positions) f then
        (let p0 = positions ! unat (vx f);
             p1 = positions ! unat (vy f);
             p2 = positions ! unat (vz f);
             n = glm_normalize (glm_cross (vsub p1 p0) (vsub p2 p0))
         in case compute_faceNormals positions fs of
              Inl e \<Rightarrow> Inl e
            | Inr ns \<Rightarrow> Inr (n # ns))
      else Inl OutOfRange)"

text \<open>
  \<open>counts[i]++\<close> on an \<open>int\<close>.  At \<open>INT_MAX\<close> the increment is undefined in C++; the
  model wraps around to \<open>INT_MIN\<close>, as the machines the program is built for do.
\<close>

definition int_incr :: "int \<Rightarrow> int" where
  "int_incr c = (if c = 2147483647 then - 2147483648 else c + 1)"

text \<open>
  The second loop: each face adds its normal to the running sum of its three vertices,
  in the order \<open>x\<close>, \<open>y\<close>, \<open>z\<close>, and increments their counts.
\<close>

fun accumulate ::
  "uvec3 list \<Rightarrow> fvec3 list \<Rightarrow> fvec3 list \<times> int list \<Rightarrow> fault + (fvec3 list \<times> int list)" where
  "accumulate (f # fs) (n # ns) (vertexNormals, counts) =
     (if face_in_range (length vertexNormals) f \<and> face_in_range (length counts) f then
        (let ix = unat (vx f); iy = unat (vy f); iz = unat (vz f);
             vn1 = vertexNormals[ix := vadd (vertexNormals ! ix) n];
             vn2 = vn1[iy := vadd (vn1 ! iy) n];
             vn3 = vn2[iz := vadd (vn2 ! iz) n];
             c1 = counts[ix := int_incr (counts ! ix)];
             c2 = c1[iy := int_incr (c1 ! iy)];
             c3 = c2[iz := int_incr (c2 ! iz)]
         in accumulate fs ns (vn3, c3))
      else Inl OutOfRange)"
| "accumulate fs ns acc = Inr acc"

text \<open>
  The third loop: a vertex with a positive count gets the normalisation of its sum
  divided by its count; the others are left as they are.
\<close>

fun normalize_loop :: "fvec3 list \<Rightarrow> int list \<Rightarrow> fvec3 list" where
  "normalize_loop (v # vs) (c # cs) =
     (if c > 0 then glm_normalize (vdivs v (real_of_int c)) else v) # normalize_loop vs cs"
| "normalize_loop vs cs = vs"

definition compute_vertexNormals :: "fvec3 list \<Rightarrow> uvec3 list \<Rightarrow> fault + fvec3 list" where
  "compute_vertexNormals positions faces =
     (case compute_faceNormals positions faces of
        Inl e \<Rightarrow> Inl e
      | Inr faceNormals \<Rightarrow>
          (case accumulate faces faceNormals
                  (replicate (length positions) vzero, replicate (length positions) 0) of
             Inl e \<Rightarrow> Inl e
           | Inr (vertexNormals, counts) \<Rightarrow> Inr (normalize_loop vertexNormals counts)))"

text \<open>The triangle list: for each face its three vertices with their averaged normals.\<close>

fun build_smooth ::
  "fvec3 list \<Rightarrow> fvec3 list \<Rightarrow> uvec3 list \<Rightarrow> Vertex_p2 list \<Rightarrow> fault + Vertex_p2 list" where
  "build_smooth positions vertexNormals [] vertices = Inr vertices"
| "build_smooth positions vertexNormals (f # fs) vertices =
     (if face_in_range (length positions) f \<and> face_in_range (length vertexNormals) f then
        build_smooth positions vertexNormals fs
          (vertices @
            [\<lparr>pos_p2 = positions ! unat (vx f), normal_p2 = vertexNormals ! unat (vx f)\<rparr>,
             \<lparr>pos_p2 = positions ! unat (vy f), normal_p2 = vertexNormals ! unat (vy f)\<rparr>,
             \<lparr>pos_p2 = positions ! unat (vz f), normal_p2 = vertexNormals ! unat (vz f)\<rparr>])
      else Inl OutOfRange)"

section \<open>Centroid, bounding radius and projection\<close>

definition centroid_of :: "fvec3 list \<Rightarrow> fvec3" where
  "centroid_of positions = vdivs (foldl vadd vzero positions) (real (length positions))"

definition max_radius :: "fvec3 list \<Rightarrow> fvec3 \<Rightarrow> real" where
  "max_radius positions centroid =
     foldl (\<lambda>maxRadius p. max maxRadius (glm_length (vsub p centroid))) 0 positions"

text \<open>
  The projection matrix is represented by the call that builds it:
  \<open>glm::perspective (fovy, aspect, zNear, zFar)\<close> or
  \<open>glm::ortho (left, right, bottom, top, zNear, zFar)\<close>.
\<close>

datatype projection =
  perspective real real real real
| ortho real real real real real real

definition projection_of :: "bool \<Rightarrow> real \<Rightarrow> real \<Rightarrow> projection" where
  "projection_of usePersp aspect maxRadius =
     (if usePersp then perspective (glm_radians 45) aspect 0.01 100
      else (let s = maxRadius * 2
            in ortho (- s * aspect) (s * aspect) (- s) s (- 100) 100))"

text \<open>The half-extent \<open>s\<close> of the orthographic projection of a mesh.\<close>

definition ortho_half_extent :: "fvec3 list \<Rightarrow> real" where
  "ortho_half_extent positions = max_radius positions (centroid_of positions) * 2"

section \<open>Key handlers\<close>

text \<open>Key and action codes, with the values the GLFW header gives them.\<close>

definition GLFW_RELEASE :: int where "GLFW_RELEASE = 0"
definition GLFW_PRESS :: int where "GLFW_PRESS = 1"
definition GLFW_REPEAT :: int where "GLFW_REPEAT = 2"

definition GLFW_KEY_1 :: int where "GLFW_KEY_1 = 49"
definition GLFW_KEY_2 :: int where "GLFW_KEY_2 = 50"
definition GLFW_KEY_A :: int where "GLFW_KEY_A = 65"
definition GLFW_KEY_D :: int where "GLFW_KEY_D = 68"
definition GLFW_KEY_E :: int where "GLFW_KEY_E = 69"
definition GLFW_KEY_I :: int where "GLFW_KEY_I = 73"
definition GLFW_KEY_J :: int where "GLFW_KEY_J = 74"
definition GLFW_KEY_K :: int where "GLFW_KEY_K = 75"
definition GLFW_KEY_L :: int where "GLFW_KEY_L = 76"
definition GLFW_KEY_M :: int where "GLFW_KEY_M = 77"
definition GLFW_KEY_O :: int where "GLFW_KEY_O = 79"
definition GLFW_KEY_P :: int where "GLFW_KEY_P = 80"
definition GLFW_KEY_Q :: int where "GLFW_KEY_Q = 81"
definition GLFW_KEY_S :: int where "GLFW_KEY_S = 83"
definition GLFW_KEY_U :: int where "GLFW_KEY_U = 85"
definition GLFW_KEY_W :: int where "GLFW_KEY_W = 87"
definition GLFW_KEY_ESCAPE :: int where "GLFW_KEY_ESCAPE = 256"

text \<open>
  What the handler of part1.cpp can write to: the four globals and the close flag of
  the window (\<open>glfwSetWindowShouldClose\<close>).
\<close>

record controls1 =
  cameraTheta :: real
  cameraRadius :: real
  cameraHeight :: real
  usePerspective :: bool
  windowShouldClose :: bool

definition onKey :: "controls1 \<Rightarrow> int \<Rightarrow> int \<Rightarrow> controls1" where
  "onKey s key action =
     (if action = GLFW_PRESS \<or> action = GLFW_REPEAT then
        (if key = GLFW_KEY_A then s\<lparr>cameraTheta := cameraTheta s - 0.05\<rparr>
         else if key = GLFW_KEY_D then s\<lparr>cameraTheta := cameraTheta s + 0.05\<rparr>
         else if key = GLFW_KEY_W then s\<lparr>cameraRadius := cameraRadius s - 0.05\<rparr>
         else if key = GLFW_KEY_S then s\<lparr>cameraRadius := cameraRadius s + 0.05\<rparr>
         else if key = GLFW_KEY_Q then s\<lparr>cameraHeight := cameraHeight s + 0.05\<rparr>
         else if key = GLFW_KEY_E then s\<lparr>cameraHeight := cameraHeight s - 0.05\<rparr>
         else if key = GLFW_KEY_P then s\<lparr>usePerspective := \<not> usePerspective s\<rparr>
         else if key = GLFW_KEY_ESCAPE then s\<lparr>windowShouldClose := True\<rparr>
         else s)
      else s)"

text \<open>
  The globals of part2.cpp and the close flag of its window.  \<open>shadingMode\<close> and
  \<open>currentMaterial\<close> are \<open>int\<close>, modelled as 32-bit words read in two's complement
  (\<open>sint\<close>).  \<open>(currentMaterial + 1) % 3\<close>: the addition wraps around, as it does on
  the machines the program is built for (the overflow is undefined in C++), and \<open>%\<close>
  truncates towards zero (\<open>smod\<close>).
\<close>

record controls2 =
  camAngle :: real
  camRadius :: real
  camHeight :: real
  lightAngle :: real
  lightRadius :: real
  lightHeight :: real
  perspectiveProj :: bool
  shadingMode :: "32 word"
  currentMaterial :: "32 word"
  windowShouldClose2 :: bool

text \<open>The handler of part2.cpp is a sequence of \<open>if\<close> statements, run one after another.\<close>

definition key_callback :: "controls2 \<Rightarrow> int \<Rightarrow> int \<Rightarrow> controls2" where
  "key_callback s key action =
     (if action = GLFW_PRESS \<or> action = GLFW_REPEAT then
        (let s = (if key = GLFW_KEY_A then s\<lparr>camAngle := camAngle s - 0.05\<rparr> else s);
             s = (if key = GLFW_KEY_D then s\<lparr>camAngle := camAngle s + 0.05\<rparr> else s);
             s = (if key = GLFW_KEY_W then s\<lparr>camRadius := camRadius s - 0.05\<rparr> else s);
             s = (if key = GLFW_KEY_S then s\<lparr>camRadius := camRadius s + 0.05\<rparr> else s);
             s = (if key = GLFW_KEY_Q then s\<lparr>camHeight := camHeight s + 0.05\<rparr> else s);
             s = (if key = GLFW_KEY_E then s\<lparr>camHeight := camHeight s - 0.05\<rparr> else s);
             s = (if key = GLFW_KEY_J then s\<lparr>lightAngle := lightAngle s - 0.05\<rparr> else s);
             s = (if key = GLFW_KEY_L then s\<lparr>lightAngle := lightAngle s + 0.05\<rparr> else s);
             s = (if key = GLFW_KEY_I then s\<lparr>lightRadius := lightRadius s - 0.05\<rparr> else s);
             s = (if key = GLFW_KEY_K then s\<lparr>lightRadius := lightRadius s + 0.05\<rparr> else s);
             s = (if key = GLFW_KEY_U then s\<lparr>lightHeight := lightHeight s + 0.05\<rparr> else s);
             s = (if key = GLFW_KEY_O then s\<lparr>lightHeight := lightHeight s - 0.05\<rparr> else s);
             s = (if key = GLFW_KEY_P then s\<lparr>perspectiveProj := \<not> perspectiveProj s\<rparr> else s);
             s = (if key = GLFW_KEY_1 then s\<lparr>shadingMode := 1\<rparr> else s);
             s = (if key = GLFW_KEY_2 then s\<lparr>shadingMode := 2\<rparr> else s);
             s = (if key = GLFW_KEY_M \<and> action = GLFW_PRESS
                  then s\<lparr>currentMaterial := word_of_int (sint (currentMaterial s + 1) smod 3)\<rparr>
                  else s);
             s = (if key = GLFW_KEY_ESCAPE then s\<lparr>windowShouldClose2 := True\<rparr> else s)
         in s)
      else s)"

text \<open>The keys the handler of part2.cpp reacts to.\<close>

definition control_keys2 :: "int list" where
  "control_keys2 =
     [GLFW_KEY_A, GLFW_KEY_D, GLFW_KEY_W, GLFW_KEY_S, GLFW_KEY_Q, GLFW_KEY_E,
      GLFW_KEY_J, GLFW_KEY_L, GLFW_KEY_I, GLFW_KEY_K, GLFW_KEY_U, GLFW_KEY_O,
      GLFW_KEY_P, GLFW_KEY_1, GLFW_KEY_2, GLFW_KEY_M, GLFW_KEY_ESCAPE]"

section \<open>The programs up to and inside their render loops\<close>

text \<open>
  The state of \<open>main\<close> of part1.cpp inside the render loop: the locals holding the mesh
  and the built vertex list, and what the key handler can write to.
\<close>

record app1 =
  positions1 :: "fvec3 list"
  faces1 :: "uvec3 list"
  vertices1 :: "Vertex list"
  maxRadius1 :: real
  controls_1 :: controls1

record app2 =
  positions2 :: "fvec3 list"
  faces2 :: "uvec3 list"
  vertices2 :: "Vertex_p2 list"
  maxrad2 :: real
  controls_2 :: controls2

text \<open>
  \<open>glfwPollEvents\<close> calls the registered handler once for each pending key event, a
  pair of a key and an action.
\<close>

definition deliver1 :: "app1 \<Rightarrow> int \<times> int \<Rightarrow> app1" where
  "deliver1 a ev = a\<lparr>controls_1 := onKey (controls_1 a) (fst ev) (snd ev)\<rparr>"

definition deliver2 :: "app2 \<Rightarrow> int \<times> int \<Rightarrow> app2" where
  "deliver2 a ev = a\<lparr>controls_2 := key_callback (controls_2 a) (fst ev) (snd ev)\<rparr>"

definition poll_events1 :: "(int \<times> int) list \<Rightarrow> app1 \<Rightarrow> app1" where
  "poll_events1 evs a = foldl deliver1 a evs"

definition poll_events2 :: "(int \<times> int) list \<Rightarrow> app2 \<Rightarrow> app2" where
  "poll_events2 evs a = foldl deliver2 a evs"

text \<open>
  What the start-up of \<open>main\<close> depends on besides its arguments: the values read from
  uninitialised locals, the file system, and whether \<open>glfwInit\<close>, \<open>glfwCreateWindow\<close>
  and \<open>gladLoadGLLoader\<close> succeed.
\<close>

record env =
  e_indet :: "nat \<Rightarrow> indet"
  e_files :: "string \<rightharpoonup> string"
  e_glfwInit :: bool
  e_createWindow :: bool
  e_gladLoad :: bool

text \<open>
  How the start-up ends: the process exits with a status, the behaviour is undefined
  (an index beyond the vertices), or the render loop is entered.
\<close>

datatype 'a startup = Exit int | Undefined | Enters 'a

definition main1 :: "env \<Rightarrow> string list \<Rightarrow> app1 startup" where
  "main1 e argv =
     (if length argv < 2 then Exit (- 1)
      else case loadSMF (e_indet e) (e_files e) (argv ! 1) of
             None \<Rightarrow> Exit (- 1)
           | Some (positions, faces) \<Rightarrow>
               (let centroid = centroid_of positions in
                case build_flat positions faces [] of
                  Inl _ \<Rightarrow> Undefined
                | Inr vertices \<Rightarrow>
                    if \<not> e_glfwInit e then Exit (- 1)
                    else if \<not> e_createWindow e then Exit (- 1)
                    else if \<not> e_gladLoad e then Exit (- 1)
                    else
                      (let maxRadius = max_radius positions centroid
                       in Enters \<lparr>positions1 = positions, faces1 = faces,
                            vertices1 = vertices, maxRadius1 = maxRadius,
                            controls_1 = \<lparr>cameraTheta = 0, cameraRadius = maxRadius * 2,
                              cameraHeight = 0.5, usePerspective = True,
                              windowShouldClose = False\<rparr>\<rparr>)))"

definition main2 :: "env \<Rightarrow> string list \<Rightarrow> app2 startup" where
  "main2 e argv =
     (if length argv < 2 then Exit (- 1)
      else case load_smf (e_indet e) (e_files e) (argv ! 1) of
             None \<Rightarrow> Exit (- 1)
           | Some (positions, faces) \<Rightarrow>
               (case compute_vertexNormals positions faces of
                  Inl _ \<Rightarrow> Undefined
                | Inr vertexNormals \<Rightarrow>
                    (case build_smooth positions vertexNormals faces [] of
                       Inl _ \<Rightarrow> Undefined
                     | Inr vertices \<Rightarrow>
                         (let centroid = centroid_of positions;
                              maxrad = max_radius positions centroid
                          in if \<not> e_glfwInit e then Exit (- 1)
                             else if \<not> e_createWindow e then Exit (- 1)
                             else if \<not> e_gladLoad e then Exit (- 1)
                             else Enters \<lparr>positions2 = positions, faces2 = faces,
                                    vertices2 = vertices, maxrad2 = maxrad,
                                    controls_2 = \<lparr>camAngle = 0, camRadius = maxrad * 2.5,
                                      camHeight = 0, lightAngle = 0, lightRadius = 2,
                                      lightHeight = 0, perspectiveProj = True,
                                      shadingMode = 1, currentMaterial = 0,
                                      windowShouldClose2 = False\<rparr>\<rparr>))))"

section \<open>The file format, as the specification words it\<close>

text \<open>The white-space-delimited tokens of a line.\<close>

function tokens :: "string \<Rightarrow> string list" where
  "tokens s =
     (case dropWhile isspace s of
        [] \<Rightarrow> []
      | c # cs \<Rightarrow>
          takeWhile (\<lambda>c. \<not> isspace c) (c # cs) # tokens (dropWhile (\<lambda>c. \<not> isspace c) (c # cs)))"
  by pat_completeness auto
termination
proof (relation "measure length")
  show "wf (measure length)"
    by simp
next
  fix s :: string and c cs
  assume a: "dropWhile isspace s = c # cs"
  then have "\<not> isspace c"
    using hd_dropWhile [of isspace s] by auto
  then have "dropWhile (\<lambda>c. \<not> isspace c) (c # cs) = dropWhile (\<lambda>c. \<not> isspace c) cs"
    by simp
  moreover have "length (dropWhile (\<lambda>c. \<not> isspace c) cs) \<le> length cs"
    by (rule length_dropWhile_le)
  moreover have "length (c # cs) \<le> length s"
    using length_dropWhile_le [of isspace s] a by simp
  ultimately show "(dropWhile (\<lambda>c. \<not> isspace c) (c # cs), s) \<in> measure length"
    by simp
qed

declare tokens.simps [simp del]

text \<open>
  A token that writes an unsigned integer: decimal digits, with a value that fits
  \<open>unsigned int\<close>.  Its value is \<open>dec_value\<close>.
\<close>

definition is_uint_token :: "string \<Rightarrow> bool" where
  "is_uint_token t \<longleftrightarrow> t \<noteq> [] \<and> list_all isdigit t \<and> dec_value t \<le> 4294967295"

text \<open>
  A token that writes a float: the number reader accepts it, which takes a value within
  the range of a float, and uses all of it.  Its value is what the reader converts it to.
\<close>

definition is_float_token :: "string \<Rightarrow> bool" where
  "is_float_token t \<longleftrightarrow> (case get_float t of (v, rest, ok) \<Rightarrow> ok \<and> rest = [])"

definition float_value :: "string \<Rightarrow> real" where
  "float_value t = fst (get_float t)"

text \<open>A \<open>v\<close> line and an \<open>f\<close> line: the first token of the line is the tag.\<close>

definition is_v_line :: "string \<Rightarrow> bool" where
  "is_v_line l \<longleftrightarrow> (case tokens l of [] \<Rightarrow> False | tag # ts \<Rightarrow> tag = ''v'')"

definition is_f_line :: "string \<Rightarrow> bool" where
  "is_f_line l \<longleftrightarrow> (case tokens l of [] \<Rightarrow> False | tag # ts \<Rightarrow> tag = ''f'')"

text \<open>The tag is followed by three floats, or by three unsigned integers.\<close>

definition three_floats :: "string \<Rightarrow> bool" where
  "three_floats l \<longleftrightarrow>
     (case tokens l of
        tag # t1 # t2 # t3 # ts \<Rightarrow> is_float_token t1 \<and> is_float_token t2 \<and> is_float_token t3
      | _ \<Rightarrow> False)"

definition three_uints :: "string \<Rightarrow> bool" where
  "three_uints l \<longleftrightarrow>
     (case tokens l of
        tag # t1 # t2 # t3 # ts \<Rightarrow> is_uint_token t1 \<and> is_uint_token t2 \<and> is_uint_token t3
      | _ \<Rightarrow> False)"

text \<open>The vertex a \<open>v\<close> line writes, and the three one-based indices an \<open>f\<close> line writes.\<close>

definition vertex_of_line :: "string \<Rightarrow> fvec3" where
  "vertex_of_line l =
     (case tokens l of
        tag # t1 # t2 # t3 # ts \<Rightarrow> vec3 (float_value t1) (float_value t2) (float_value t3)
      | _ \<Rightarrow> vec3 0 0 0)"

definition indices_of_line :: "string \<Rightarrow> nat tvec3" where
  "indices_of_line l =
     (case tokens l of
        tag # t1 # t2 # t3 # ts \<Rightarrow> vec3 (dec_value t1) (dec_value t2) (dec_value t3)
      | _ \<Rightarrow> vec3 0 0 0)"

text \<open>The face the loaders store for an \<open>f\<close> line: each index minus one, in \<open>unsigned int\<close>.\<close>

definition face_of_line :: "string \<Rightarrow> uvec3" where
  "face_of_line l =
     (case indices_of_line l of
        vec3 a b c \<Rightarrow> vec3 (of_nat a - 1) (of_nat b - 1) (of_nat c - 1))"

text \<open>
  A line of a valid mesh file in the specification's words: empty, a \<open>v\<close> line with
  three floats, an \<open>f\<close> line with three unsigned integers, or a line with any other tag.
\<close>

definition spec_valid_line :: "string \<Rightarrow> bool" where
  "spec_valid_line l \<longleftrightarrow>
     l = [] \<or> (is_v_line l \<and> three_floats l) \<or> (is_f_line l \<and> three_uints l)
     \<or> (case tokens l of [] \<Rightarrow> False | tag # ts \<Rightarrow> tag \<noteq> ''v'' \<and> tag \<noteq> ''f'')"

text \<open>
  The same with the last case narrowed to what the loaders test: the first character
  of the tag is neither \<open>v\<close> nor \<open>f\<close>.
\<close>

definition valid_line :: "string \<Rightarrow> bool" where
  "valid_line l \<longleftrightarrow>
     l = [] \<or> (is_v_line l \<and> three_floats l) \<or> (is_f_line l \<and> three_uints l)
     \<or> (case tokens l of [] \<Rightarrow> False | tag # ts \<Rightarrow> hd tag \<noteq> CHR ''v'' \<and> hd tag \<noteq> CHR ''f'')"

section \<open>Example inputs\<close>

text \<open>The values the globals of the two programs are initialised with.\<close>

definition initial_controls1 :: controls1 where
  "initial_controls1 = \<lparr>cameraTheta = 0, cameraRadius = 2.5, cameraHeight = 0.5,
     usePerspective = True, windowShouldClose = False\<rparr>"

definition initial_controls2 :: controls2 where
  "initial_controls2 = \<lparr>camAngle = 0, camRadius = 2, camHeight = 0, lightAngle = 0,
     lightRadius = 2, lightHeight = 0, perspectiveProj = True, shadingMode = 1,
     currentMaterial = 0, windowShouldClose2 = False\<rparr>"

text \<open>Where a field ends: at the end of the buffer or before white space.\<close>

definition field_end :: "string \<Rightarrow> bool" where
  "field_end r \<longleftrightarrow> r = [] \<or> isspace (hd r)"

text \<open>
  Values for the uninitialised locals, a file system with one file, and a mesh file with
  three vertices and one face.
\<close>

definition indet0 :: indet where
  "indet0 = \<lparr>i_type = CHR ''?'', i_x = 7, i_y = 8, i_z = 9, i_a = 70, i_b = 80, i_c = 90\<rparr>"

definition no_init :: "nat \<Rightarrow> indet" where
  "no_init i = indet0"

definition one_file :: "string \<Rightarrow> string \<Rightarrow> (string \<rightharpoonup> string)" where
  "one_file name content = (\<lambda>p. if p = name then Some content else None)"

definition triangle_smf :: string where
  "triangle_smf = ''v 0 0 0\<newline>v 1 0 0\<newline>v 0 1 0\<newline>\<newline># one face\<newline>f 1 2 3\<newline>''"

section \<open>Closed forms of the loops\<close>

text \<open>The three vertices the flat variant emits for a face.\<close>

definition flat_triple :: "fvec3 list \<Rightarrow> uvec3 \<Rightarrow> Vertex list" where
  "flat_triple positions f =
     (let p0 = positions ! unat (vx f);
          p1 = positions ! unat (vy f);
          p2 = positions ! unat (vz f);
          n = face_normal p0 p1 p2
      in [\<lparr>pos = p0, normal = n, color = glm_abs n\<rparr>,
          \<lparr>pos = p1, normal = n, color = glm_abs n\<rparr>,
          \<lparr>pos = p2, normal = n, color = glm_abs n\<rparr>])"

text \<open>The mesh of the example file, and two environments that hold it.\<close>

definition triangle_positions :: "fvec3 list" where
  "triangle_positions = [vec3 0 0 0, vec3 1 0 0, vec3 0 1 0]"

definition triangle_faces :: "uvec3 list" where
  "triangle_faces = [vec3 0 1 2]"

definition no_glfw_env :: env where
  "no_glfw_env = \<lparr>e_indet = no_init, e_files = one_file ''m.smf'' triangle_smf,
     e_glfwInit = False, e_createWindow = True, e_gladLoad = True\<rparr>"

definition good_env :: env where
  "good_env = \<lparr>e_indet = no_init, e_files = one_file ''m.smf'' triangle_smf,
     e_glfwInit = True, e_createWindow = True, e_gladLoad = True\<rparr>"

text \<open>How many of the three indices of a face are the vertex \<open>v\<close>, and whether any is.\<close>

definition occ :: "nat \<Rightarrow> uvec3 \<Rightarrow> nat" where
  "occ v f = (if unat (vx f) = v then 1 else 0) + (if unat (vy f) = v then 1 else 0)
     + (if unat (vz f) = v then 1 else 0)"

definition refs :: "nat \<Rightarrow> uvec3 \<Rightarrow> bool" where
  "refs v f \<longleftrightarrow> unat (vx f) = v \<or> unat (vy f) = v \<or> unat (vz f) = v"

text \<open>
  A face is degenerate when the cross product of its two edges from the first corner
  is the zero vector: its corners are on one line, or two of them coincide.
\<close>

definition nondegenerate :: "fvec3 list \<Rightarrow> uvec3 \<Rightarrow> bool" where
  "nondegenerate positions f \<longleftrightarrow>
     glm_cross (vsub (positions ! unat (vy f)) (positions ! unat (vx f)))
               (vsub (positions ! unat (vz f)) (positions ! unat (vx f))) \<noteq> vzero"

text \<open>The normal of a face of the mesh.\<close>

definition normal_of_face :: "fvec3 list \<Rightarrow> uvec3 \<Rightarrow> fvec3" where
  "normal_of_face positions f =
     face_normal (positions ! unat (vx f)) (positions ! unat (vy f)) (positions ! unat (vz f))"

text \<open>The sum of a list of vectors.\<close>

fun vsum :: "fvec3 list \<Rightarrow> fvec3" where
  "vsum [] = vzero"
| "vsum (a # as) = vadd a (vsum as)"

text \<open>
  What the second loop adds to the running sum of the vertex \<open>v\<close>: the normal of each
  face, once for each of its indices that is \<open>v\<close>.
\<close>

fun wsum :: "nat \<Rightarrow> uvec3 list \<Rightarrow> fvec3 list \<Rightarrow> fvec3" where
  "wsum v (f # fs) (n # ns) = vadd (vmuls n (real (occ v f))) (wsum v fs ns)"
| "wsum v fs ns = vzero"

text \<open>
  A unit square in the plane \<open>z = 0\<close>, cut into two triangles that share the vertices
  0 and 2, and a fifth vertex that no face references.
\<close>

definition square_positions :: "fvec3 list" where
  "square_positions = [vec3 0 0 0, vec3 1 0 0, vec3 1 1 0, vec3 0 1 0, vec3 5 5 5]"

definition square_faces :: "uvec3 list" where
  "square_faces = [vec3 0 1 2, vec3 0 2 3]"

text \<open>The mesh scaled by a factor \<open>k\<close> about the origin.\<close>

definition scale_mesh :: "real \<Rightarrow> fvec3 list \<Rightarrow> fvec3 list" where
  "scale_mesh k positions = map (\<lambda>p. vmuls p k) positions"

text \<open>States of the two programs inside their render loops, holding the example mesh.\<close>

definition example_app1 :: app1 where
  "example_app1 = \<lparr>positions1 = triangle_positions, faces1 = triangle_faces,
     vertices1 = flat_triple triangle_positions (vec3 0 1 2), maxRadius1 = 1,
     controls_1 = initial_controls1\<rparr>"

definition example_app2 :: app2 where
  "example_app2 = \<lparr>positions2 = triangle_positions, faces2 = triangle_faces,
     vertices2 = [\<lparr>pos_p2 = vec3 0 0 0, normal_p2 = vec3 0 0 1\<rparr>,
                  \<lparr>pos_p2 = vec3 1 0 0, normal_p2 = vec3 0 0 1\<rparr>,
                  \<lparr>pos_p2 = vec3 0 1 0, normal_p2 = vec3 0 0 1\<rparr>],
     maxrad2 = 1, controls_2 = initial_controls2\<rparr>"

text \<open>Four key events: toggle the projection, cycle the material, select Phong, turn the camera.\<close>

definition example_events :: "(int \<times> int) list" where
  "example_events = [(GLFW_KEY_P, GLFW_PRESS), (GLFW_KEY_M, GLFW_PRESS),
     (GLFW_KEY_2, GLFW_PRESS), (GLFW_KEY_A, GLFW_REPEAT)]"

text \<open>
  A triangle with edges of length 2, wound so that its normal points down: its cross
  product is \<open>(0,0,-4)\<close>, so that the normalisation and the absolute value both act.
\<close>

definition wide_positions :: "fvec3 list" where
  "wide_positions = [vec3 0 0 0, vec3 2 0 0, vec3 0 2 0]"

definition wide_faces :: "uvec3 list" where
  "wide_faces = [vec3 0 2 1]"

text \<open>
  Two triangles that meet along the edge from vertex 0 to vertex 1 and are not in one
  plane: their cross products are \<open>(3,4,0)\<close> and \<open>(3,-4,0)\<close>.
\<close>

definition ridge_positions :: "fvec3 list" where
  "ridge_positions = [vec3 0 0 0, vec3 0 0 1, vec3 4 (- 3) 0, vec3 (- 4) (- 3) 0]"

definition ridge_faces :: "uvec3 list" where
  "ridge_faces = [vec3 0 1 2, vec3 0 1 3]"

text \<open>
  Whether a loaded mesh has a face with an index that is not below the number of its
  vertices.
\<close>

definition index_out_of_range :: "(fvec3 list \<times> uvec3 list) option \<Rightarrow> bool" where
  "index_out_of_range m =
     (case m of
        None \<Rightarrow> False
      | Some (positions, faces) \<Rightarrow> \<not> list_all (face_in_range (length positions)) faces)"

text \<open>An environment whose file has a face and no vertex.\<close>

definition bad_index_env :: env where
  "bad_index_env = \<lparr>e_indet = no_init, e_files = one_file ''m.smf'' ''f 0 1 2'',
     e_glfwInit = True, e_createWindow = True, e_gladLoad = True\<rparr>"

section \<open>Key handlers: repeat and press\<close>

lemmas glfw_codes =
  GLFW_RELEASE_def GLFW_PRESS_def GLFW_REPEAT_def GLFW_KEY_1_def GLFW_KEY_2_def
  GLFW_KEY_A_def GLFW_KEY_D_def GLFW_KEY_E_def GLFW_KEY_I_def GLFW_KEY_J_def
  GLFW_KEY_K_def GLFW_KEY_L_def GLFW_KEY_M_def GLFW_KEY_O_def GLFW_KEY_P_def
  GLFW_KEY_Q_def GLFW_KEY_S_def GLFW_KEY_U_def GLFW_KEY_W_def GLFW_KEY_ESCAPE_def


lemma onKey_repeat: "onKey s key GLFW_REPEAT = onKey s key GLFW_PRESS"
  by (simp add: onKey_def)

lemma key_callback_repeat:
  assumes "key \<noteq> GLFW_KEY_M"
  shows "key_callback s key GLFW_REPEAT = key_callback s key GLFW_PRESS"
  using assms by (simp only: key_callback_def simp_thms if_True if_False)

lemma key_callback_M_repeat: "key_callback s GLFW_KEY_M GLFW_REPEAT = s"
  by (simp add: key_callback_def glfw_codes)

lemma key_callback_M_press:
  "key_callback s GLFW_KEY_M GLFW_PRESS
     = s\<lparr>currentMaterial := word_of_int (sint (currentMaterial s + 1) smod 3)\<rparr>"
  by (simp add: key_callback_def glfw_codes)

lemma material_cycle:
  "word_of_int (sint (0 + 1 :: 32 word) smod 3) = (1 :: 32 word)"
  "word_of_int (sint (1 + 1 :: 32 word) smod 3) = (2 :: 32 word)"
  "word_of_int (sint (2 + 1 :: 32 word) smod 3) = (0 :: 32 word)"
  by (simp_all add: signed_modulo_int_def)

lemma material_after_INT_MAX:
  "word_of_int (sint (2147483647 + 1 :: 32 word) smod 3) = (- 2 :: 32 word)"
  by (simp add: signed_modulo_int_def)

text \<open>
  C5, as stated, fails: in part2.cpp the material-cycle key \<open>M\<close> is guarded by
  \<open>action == GLFW_PRESS\<close>.  From the initial state a press of \<open>M\<close> moves
  \<open>currentMaterial\<close> from 0 to 1 and a repeat of \<open>M\<close> leaves the state as it is.
\<close>

theorem material_key_repeat_differs:
  "GLFW_KEY_M \<in> set control_keys2 \<and>
   key_callback initial_controls2 GLFW_KEY_M GLFW_REPEAT
     \<noteq> key_callback initial_controls2 GLFW_KEY_M GLFW_PRESS"
proof -
  have "currentMaterial (key_callback initial_controls2 GLFW_KEY_M GLFW_PRESS) = 1"
    using material_cycle(1) by (simp add: key_callback_M_press initial_controls2_def)
  moreover have "currentMaterial (key_callback initial_controls2 GLFW_KEY_M GLFW_REPEAT) = 0"
    by (simp add: key_callback_M_repeat initial_controls2_def)
  ultimately have "key_callback initial_controls2 GLFW_KEY_M GLFW_REPEAT
     \<noteq> key_callback initial_controls2 GLFW_KEY_M GLFW_PRESS"
    by auto
  then show ?thesis
    by (simp add: control_keys2_def)
qed

text \<open>
  C5, amended: in every state a repeat event of a key updates the state exactly as a
  press of that key does, for every key of part1.cpp and for every key of part2.cpp
  other than the material-cycle key \<open>M\<close>; a repeat of \<open>M\<close> leaves the state unchanged,
  and a press of \<open>M\<close> sets \<open>currentMaterial\<close> to \<open>(currentMaterial + 1) % 3\<close> in 32-bit
  \<open>int\<close> arithmetic, which takes 0 to 1, 1 to 2 and 2 to 0.
\<close>

theorem repeat_is_press_except_material:
  "onKey s1 key GLFW_REPEAT = onKey s1 key GLFW_PRESS \<and>
   (key \<noteq> GLFW_KEY_M \<longrightarrow>
      key_callback s2 key GLFW_REPEAT = key_callback s2 key GLFW_PRESS) \<and>
   key_callback s2 GLFW_KEY_M GLFW_REPEAT = s2 \<and>
   key_callback s2 GLFW_KEY_M GLFW_PRESS
     = s2\<lparr>currentMaterial := word_of_int (sint (currentMaterial s2 + 1) smod 3)\<rparr> \<and>
   (currentMaterial s2 = 0 \<longrightarrow>
      currentMaterial (key_callback s2 GLFW_KEY_M GLFW_PRESS) = 1) \<and>
   (currentMaterial s2 = 1 \<longrightarrow>
      currentMaterial (key_callback s2 GLFW_KEY_M GLFW_PRESS) = 2) \<and>
   (currentMaterial s2 = 2 \<longrightarrow>
      currentMaterial (key_callback s2 GLFW_KEY_M GLFW_PRESS) = 0)"
proof -
  have "currentMaterial s2 = 0 \<longrightarrow>
      currentMaterial (key_callback s2 GLFW_KEY_M GLFW_PRESS) = 1"
    using material_cycle(1) by (simp add: key_callback_M_press)
  moreover have "currentMaterial s2 = 1 \<longrightarrow>
      currentMaterial (key_callback s2 GLFW_KEY_M GLFW_PRESS) = 2"
    using material_cycle(2) by (simp add: key_callback_M_press)
  moreover have "currentMaterial s2 = 2 \<longrightarrow>
      currentMaterial (key_callback s2 GLFW_KEY_M GLFW_PRESS) = 0"
    using material_cycle(3) by (simp add: key_callback_M_press)
  ultimately show ?thesis
    using onKey_repeat [of s1 key] key_callback_repeat [of key s2]
      key_callback_M_repeat [of s2] key_callback_M_press [of s2]
    by (intro conjI impI) simp_all
qed

theorem repeat_is_press_except_material_witness:
  "GLFW_KEY_P \<noteq> GLFW_KEY_M \<and>
   key_callback initial_controls2 GLFW_KEY_P GLFW_REPEAT
     = key_callback initial_controls2 GLFW_KEY_P GLFW_PRESS \<and>
   perspectiveProj (key_callback initial_controls2 GLFW_KEY_P GLFW_REPEAT) = False \<and>
   currentMaterial initial_controls2 = 0 \<and>
   currentMaterial (key_callback initial_controls2 GLFW_KEY_M GLFW_PRESS) = 1 \<and>
   currentMaterial
     (key_callback (initial_controls2\<lparr>currentMaterial := 1\<rparr>) GLFW_KEY_M GLFW_PRESS) = 2 \<and>
   currentMaterial
     (key_callback (initial_controls2\<lparr>currentMaterial := 2\<rparr>) GLFW_KEY_M GLFW_PRESS) = 0"
proof -
  have m0: "currentMaterial initial_controls2 = 0"
    by (simp add: initial_controls2_def)
  have m2: "currentMaterial
      (key_callback (initial_controls2\<lparr>currentMaterial := 1\<rparr>) GLFW_KEY_M GLFW_PRESS) = 2"
    using repeat_is_press_except_material [of initial_controls1 GLFW_KEY_P
        "initial_controls2\<lparr>currentMaterial := 1\<rparr>"]
    by simp
  have m3: "currentMaterial
      (key_callback (initial_controls2\<lparr>currentMaterial := 2\<rparr>) GLFW_KEY_M GLFW_PRESS) = 0"
    using repeat_is_press_except_material [of initial_controls1 GLFW_KEY_P
        "initial_controls2\<lparr>currentMaterial := 2\<rparr>"]
    by simp
  have m1: "currentMaterial (key_callback initial_controls2 GLFW_KEY_M GLFW_PRESS) = 1"
    using repeat_is_press_except_material [of initial_controls1 GLFW_KEY_P initial_controls2] m0
    by blast
  have ne: "GLFW_KEY_P \<noteq> GLFW_KEY_M"
    by (simp add: glfw_codes)
  have "key_callback initial_controls2 GLFW_KEY_P GLFW_REPEAT
          = key_callback initial_controls2 GLFW_KEY_P GLFW_PRESS"
    using repeat_is_press_except_material [of initial_controls1 GLFW_KEY_P initial_controls2] ne
    by blast
  moreover have "perspectiveProj (key_callback initial_controls2 GLFW_KEY_P GLFW_PRESS) = False"
    by (simp add: key_callback_def glfw_codes initial_controls2_def)
  ultimately show ?thesis
    using ne m0 m1 m2 m3 by simp
qed

section \<open>Key events leave the mesh alone\<close>

lemma foldl_deliver1:
  "foldl deliver1 a evs
     = a\<lparr>controls_1 := foldl (\<lambda>s ev. onKey s (fst ev) (snd ev)) (controls_1 a) evs\<rparr>"
  by (induction evs arbitrary: a) (simp_all add: deliver1_def)

lemma foldl_deliver2:
  "foldl deliver2 a evs
     = a\<lparr>controls_2 := foldl (\<lambda>s ev. key_callback s (fst ev) (snd ev)) (controls_2 a) evs\<rparr>"
  by (induction evs arbitrary: a) (simp_all add: deliver2_def)

lemma onKey_close_flag:
  assumes "key \<noteq> GLFW_KEY_ESCAPE"
  shows "windowShouldClose (onKey s key action) = windowShouldClose s"
  using assms by (simp add: onKey_def)

lemma key_callback_close_flag:
  assumes "key \<noteq> GLFW_KEY_ESCAPE"
  shows "windowShouldClose2 (key_callback s key action) = windowShouldClose2 s"
proof (cases "key \<in> set control_keys2")
  case False
  then show ?thesis
    by (simp add: control_keys2_def key_callback_def)
next
  case True
  then consider "key = GLFW_KEY_A" | "key = GLFW_KEY_D" | "key = GLFW_KEY_W" | "key = GLFW_KEY_S"
    | "key = GLFW_KEY_Q" | "key = GLFW_KEY_E" | "key = GLFW_KEY_J" | "key = GLFW_KEY_L"
    | "key = GLFW_KEY_I" | "key = GLFW_KEY_K" | "key = GLFW_KEY_U" | "key = GLFW_KEY_O"
    | "key = GLFW_KEY_P" | "key = GLFW_KEY_1" | "key = GLFW_KEY_2" | "key = GLFW_KEY_M"
    using assms by (auto simp: control_keys2_def)
  then show ?thesis
    by cases (simp_all add: key_callback_def glfw_codes)
qed

lemma foldl_onKey_close_flag:
  assumes "\<forall>ev\<in>set evs. fst ev \<noteq> GLFW_KEY_ESCAPE"
  shows "windowShouldClose (foldl (\<lambda>s ev. onKey s (fst ev) (snd ev)) s evs) = windowShouldClose s"
  using assms by (induction evs arbitrary: s) (simp_all add: onKey_close_flag)

lemma foldl_key_callback_close_flag:
  assumes "\<forall>ev\<in>set evs. fst ev \<noteq> GLFW_KEY_ESCAPE"
  shows "windowShouldClose2 (foldl (\<lambda>s ev. key_callback s (fst ev) (snd ev)) s evs)
           = windowShouldClose2 s"
  using assms by (induction evs arbitrary: s) (simp_all add: key_callback_close_flag)

text \<open>
  C9: whatever key events are delivered, in either program, the state after them
  differs from the state before only in what the handler writes to: the loaded
  positions, the faces and the built vertex list, and so their counts, are the same.
  Of what the handler writes to, the close flag of the window changes only on the quit
  key; every other key changes only the camera, light, projection-mode, shading-mode and
  material-index scalars.
\<close>

theorem key_events_preserve_geometry:
  "poll_events1 evs a1
     = a1\<lparr>controls_1 := foldl (\<lambda>s ev. onKey s (fst ev) (snd ev)) (controls_1 a1) evs\<rparr> \<and>
   positions1 (poll_events1 evs a1) = positions1 a1 \<and>
   faces1 (poll_events1 evs a1) = faces1 a1 \<and>
   vertices1 (poll_events1 evs a1) = vertices1 a1 \<and>
   poll_events2 evs a2
     = a2\<lparr>controls_2 := foldl (\<lambda>s ev. key_callback s (fst ev) (snd ev)) (controls_2 a2) evs\<rparr> \<and>
   positions2 (poll_events2 evs a2) = positions2 a2 \<and>
   faces2 (poll_events2 evs a2) = faces2 a2 \<and>
   vertices2 (poll_events2 evs a2) = vertices2 a2 \<and>
   ((\<forall>ev\<in>set evs. fst ev \<noteq> GLFW_KEY_ESCAPE) \<longrightarrow>
      windowShouldClose (controls_1 (poll_events1 evs a1)) = windowShouldClose (controls_1 a1) \<and>
      windowShouldClose2 (controls_2 (poll_events2 evs a2)) = windowShouldClose2 (controls_2 a2))"
  by (simp add: poll_events1_def poll_events2_def foldl_deliver1 foldl_deliver2
      foldl_onKey_close_flag foldl_key_callback_close_flag)

theorem key_events_preserve_geometry_witness:
  "list_all (\<lambda>ev. fst ev \<noteq> GLFW_KEY_ESCAPE) example_events \<and>
   positions2 (poll_events2 example_events example_app2) = triangle_positions \<and>
   faces2 (poll_events2 example_events example_app2) = triangle_faces \<and>
   vertices2 (poll_events2 example_events example_app2) = vertices2 example_app2 \<and>
   positions1 (poll_events1 example_events example_app1) = triangle_positions \<and>
   faces1 (poll_events1 example_events example_app1) = triangle_faces \<and>
   vertices1 (poll_events1 example_events example_app1) = vertices1 example_app1 \<and>
   windowShouldClose (controls_1 (poll_events1 example_events example_app1)) = False \<and>
   windowShouldClose2 (controls_2 (poll_events2 example_events example_app2)) = False"
proof -
  have h: "\<forall>ev\<in>set example_events. fst ev \<noteq> GLFW_KEY_ESCAPE"
    by (simp add: example_events_def glfw_codes)
  have "windowShouldClose (controls_1 example_app1) = False"
    "windowShouldClose2 (controls_2 example_app2) = False"
    "positions1 example_app1 = triangle_positions" "faces1 example_app1 = triangle_faces"
    "positions2 example_app2 = triangle_positions" "faces2 example_app2 = triangle_faces"
    by (simp_all add: example_app1_def example_app2_def initial_controls1_def
        initial_controls2_def)
  then show ?thesis
    using key_events_preserve_geometry [of example_events example_app1 example_app2] h
    unfolding list_all_iff by metis
qed

section \<open>Reading the fields of a line\<close>

lemma space_not_digit: "isspace c \<Longrightarrow> \<not> isdigit c"
  by (auto simp: isspace_def isdigit_def)
lemma space_not_sign: "isspace c \<Longrightarrow> \<not> is_sign c"
  by (auto simp: isspace_def is_sign_def)
lemma space_not_minus: "isspace c \<Longrightarrow> \<not> is_minus c"
  by (auto simp: isspace_def is_minus_def)
lemma space_not_point: "isspace c \<Longrightarrow> \<not> is_point c"
  by (auto simp: isspace_def is_point_def)
lemma space_not_exp: "isspace c \<Longrightarrow> \<not> is_exp_mark c"
  by (auto simp: isspace_def is_exp_mark_def)

lemma starts_with_append:
  assumes "field_end r" and "\<And>c. isspace c \<Longrightarrow> \<not> q c"
  shows "starts_with q (s @ r) = starts_with q s"
  using assms by (cases s) (auto simp: starts_with_def field_end_def)

lemma skip_if_append:
  assumes "field_end r" and "\<And>c. isspace c \<Longrightarrow> \<not> q c"
  shows "skip_if q (s @ r) = skip_if q s @ r"
  using assms by (cases s) (auto simp: skip_if_def starts_with_def field_end_def)

lemma takeWhile_append_end:
  assumes "field_end r" and "\<And>c. isspace c \<Longrightarrow> \<not> q c"
  shows "takeWhile q (s @ r) = takeWhile q s"
proof (induction s)
  case Nil
  show ?case using assms by (cases r) (auto simp: field_end_def)
qed simp

lemma dropWhile_append_end:
  assumes "field_end r" and "\<And>c. isspace c \<Longrightarrow> \<not> q c"
  shows "dropWhile q (s @ r) = dropWhile q s @ r"
proof (induction s)
  case Nil
  show ?case using assms by (cases r) (auto simp: field_end_def)
qed simp

lemma tl_append_starts: "starts_with q s \<Longrightarrow> tl (s @ r) = tl s @ r"
  by (cases s) (auto simp: starts_with_def)

lemma get_unsigned_append:
  assumes "field_end r"
  shows "get_unsigned (s @ r) = (case get_unsigned s of (v, rest, ok) \<Rightarrow> (v, rest @ r, ok))"
  using assms
  by (simp add: get_unsigned_def Let_def starts_with_append skip_if_append
      takeWhile_append_end dropWhile_append_end
      space_not_digit space_not_sign space_not_minus)

lemma to_float_append:
  "to_float v (rest @ r) = (case to_float v rest of (w, rest', ok) \<Rightarrow> (w, rest' @ r, ok))"
  by (simp add: to_float_def)

lemma get_float_append:
  assumes "field_end r"
  shows "get_float (s @ r) = (case get_float s of (v, rest, ok) \<Rightarrow> (v, rest @ r, ok))"
proof -
  note ap = starts_with_append [OF assms] skip_if_append [OF assms]
      takeWhile_append_end [OF assms] dropWhile_append_end [OF assms]
  show ?thesis
    by (simp add: get_float_def Let_def ap tl_append_starts to_float_append
      space_not_digit space_not_sign space_not_minus space_not_point space_not_exp)
qed


lemma tokens_Nil: "tokens b = [] \<longleftrightarrow> skipws b = []"
proof (cases "dropWhile isspace b")
  case Nil
  have "tokens b = []"
    by (subst tokens.simps) (simp only: Nil list.case)
  then show ?thesis
    unfolding skipws_def Nil by blast
next
  case (Cons c cs)
  have "tokens b \<noteq> []"
    by (subst tokens.simps) (simp only: Cons list.case list.distinct not_False_eq_True)
  then show ?thesis
    unfolding skipws_def Cons by blast
qed

lemma tokens_Cons:
  assumes "tokens b = t # ts"
  shows "\<exists>r. skipws b = t @ r \<and> t \<noteq> [] \<and> \<not> isspace (hd t) \<and> field_end r \<and> tokens r = ts"
proof -
  obtain c cs where d: "dropWhile isspace b = c # cs"
    using assms by (subst (asm) tokens.simps) (auto split: list.splits)
  let ?q = "\<lambda>c. \<not> isspace c"
  have c: "\<not> isspace c"
    using hd_dropWhile [of isspace b] d by auto
  have t: "t = takeWhile ?q (c # cs)" and ts: "ts = tokens (dropWhile ?q (c # cs))"
    using assms d by (subst (asm) tokens.simps, simp)+
  have "field_end (dropWhile ?q (c # cs))"
  proof (cases "dropWhile ?q (c # cs) = []")
    case True
    then show ?thesis
      unfolding field_end_def by blast
  next
    case False
    from hd_dropWhile [OF False] show ?thesis
      unfolding field_end_def by blast
  qed
  moreover have "skipws b = t @ dropWhile ?q (c # cs)"
    unfolding t skipws_def d by simp
  moreover have "t \<noteq> []" "\<not> isspace (hd t)"
    using c t by auto
  ultimately show ?thesis
    using ts by blast
qed

lemma get_unsigned_token:
  assumes "is_uint_token t"
  shows "get_unsigned t = (of_nat (dec_value t), [], True)"
proof -
  have ne: "t \<noteq> []" and dg: "\<forall>c\<in>set t. isdigit c" and le: "dec_value t \<le> 4294967295"
    using assms by (auto simp: is_uint_token_def list_all_iff)
  have "isdigit (hd t)"
    using ne dg by (cases t) auto
  then have "\<not> is_sign (hd t)" "\<not> is_minus (hd t)"
    by (auto simp: isdigit_def is_sign_def is_minus_def)
  then have sk: "skip_if is_sign t = t" "\<not> starts_with is_minus t"
    by (auto simp: skip_if_def starts_with_def)
  have tw: "takeWhile isdigit t = t" "dropWhile isdigit t = []"
    using dg by auto
  show ?thesis
    using ne le by (simp add: get_unsigned_def Let_def sk tw)
qed

lemma get_float_token:
  assumes "is_float_token t"
  shows "get_float t = (float_value t, [], True)"
  using assms by (auto simp: is_float_token_def float_value_def split: prod.splits)

lemma extract_unsigned_token:
  assumes "\<not> failbit s" and "tokens (buf s) = t # ts" and "is_uint_token t"
  shows "\<exists>s'. extract_unsigned old s = (of_nat (dec_value t), s') \<and> \<not> failbit s'
           \<and> tokens (buf s') = ts"
proof -
  obtain r where r: "skipws (buf s) = t @ r" "t \<noteq> []" "field_end r" "tokens r = ts"
    using tokens_Cons [OF assms(2)] by blast
  obtain c cs where cs: "t @ r = c # cs"
    using r(2) by (cases t) auto
  have "get_unsigned (c # cs) = (of_nat (dec_value t), r, True)"
    unfolding cs [symmetric] by (simp add: get_unsigned_append [OF r(3)] get_unsigned_token [OF assms(3)])
  then show ?thesis
    using assms(1) r cs by (simp add: extract_unsigned_def extract_num_def)
qed

lemma extract_float_token:
  assumes "\<not> failbit s" and "tokens (buf s) = t # ts" and "is_float_token t"
  shows "\<exists>s'. extract_float old s = (float_value t, s') \<and> \<not> failbit s'
           \<and> tokens (buf s') = ts"
proof -
  obtain r where r: "skipws (buf s) = t @ r" "t \<noteq> []" "field_end r" "tokens r = ts"
    using tokens_Cons [OF assms(2)] by blast
  obtain c cs where cs: "t @ r = c # cs"
    using r(2) by (cases t) auto
  have "get_float (c # cs) = (float_value t, r, True)"
    unfolding cs [symmetric] by (simp add: get_float_append [OF r(3)] get_float_token [OF assms(3)])
  then show ?thesis
    using assms(1) r cs by (simp add: extract_float_def extract_num_def)
qed

lemma extract_char_first:
  assumes "tokens line = tag # ts"
  shows "fst (extract_char old \<lparr>buf = line, failbit = False\<rparr>) = hd tag"
proof -
  obtain r where r: "skipws line = tag @ r" "tag \<noteq> []"
    using tokens_Cons [OF assms] by blast
  then show ?thesis
    by (cases tag) (auto simp: extract_char_def)
qed

lemma extract_char_tag:
  assumes "tokens line = [c] # ts"
  shows "\<exists>s'. extract_char old \<lparr>buf = line, failbit = False\<rparr> = (c, s') \<and> \<not> failbit s'
           \<and> tokens (buf s') = ts"
proof -
  obtain r where r: "skipws line = [c] @ r" "tokens r = ts"
    using tokens_Cons [OF assms] by blast
  then show ?thesis
    by (auto simp: extract_char_def)
qed

section \<open>The loaders on valid files\<close>

lemma tokens_empty: "tokens [] = []"
  by (simp add: tokens_Nil skipws_def)

lemma loadSMF_line_empty: "loadSMF_line u [] acc = acc"
  by (simp add: loadSMF_line_def split: prod.splits)

lemma loadSMF_line_v:
  assumes "is_v_line l" and "three_floats l"
  shows "loadSMF_line u l (vs, fs) = (vs @ [vertex_of_line l], fs)"
proof -
  obtain t1 t2 t3 ts where tk: "tokens l = ''v'' # t1 # t2 # t3 # ts"
    and fl: "is_float_token t1" "is_float_token t2" "is_float_token t3"
    using assms by (auto simp: is_v_line_def three_floats_def split: list.splits)
  have ne: "l \<noteq> []"
    using tk tokens_empty by auto
  obtain s1 where s1: "extract_char (i_type u) \<lparr>buf = l, failbit = False\<rparr> = (CHR ''v'', s1)"
    "\<not> failbit s1" "tokens (buf s1) = t1 # t2 # t3 # ts"
    using extract_char_tag [OF tk] by blast
  obtain s2 where s2: "extract_float (i_x u) s1 = (float_value t1, s2)"
    "\<not> failbit s2" "tokens (buf s2) = t2 # t3 # ts"
    using extract_float_token [OF s1(2) s1(3) fl(1)] by blast
  obtain s3 where s3: "extract_float (i_y u) s2 = (float_value t2, s3)"
    "\<not> failbit s3" "tokens (buf s3) = t3 # ts"
    using extract_float_token [OF s2(2) s2(3) fl(2)] by blast
  obtain s4 where s4: "extract_float (i_z u) s3 = (float_value t3, s4)"
    using extract_float_token [OF s3(2) s3(3) fl(3)] by blast
  show ?thesis
    using ne by (simp add: loadSMF_line_def s1 s2 s3 s4 vertex_of_line_def tk)
qed

lemma loadSMF_line_f:
  assumes "is_f_line l" and "three_uints l"
  shows "loadSMF_line u l (vs, fs) = (vs, fs @ [face_of_line l])"
proof -
  obtain t1 t2 t3 ts where tk: "tokens l = ''f'' # t1 # t2 # t3 # ts"
    and fl: "is_uint_token t1" "is_uint_token t2" "is_uint_token t3"
    using assms by (auto simp: is_f_line_def three_uints_def split: list.splits)
  have ne: "l \<noteq> []"
    using tk tokens_empty by auto
  obtain s1 where s1: "extract_char (i_type u) \<lparr>buf = l, failbit = False\<rparr> = (CHR ''f'', s1)"
    "\<not> failbit s1" "tokens (buf s1) = t1 # t2 # t3 # ts"
    using extract_char_tag [OF tk] by blast
  obtain s2 where s2: "extract_unsigned (i_a u) s1 = (of_nat (dec_value t1), s2)"
    "\<not> failbit s2" "tokens (buf s2) = t2 # t3 # ts"
    using extract_unsigned_token [OF s1(2) s1(3) fl(1)] by blast
  obtain s3 where s3: "extract_unsigned (i_b u) s2 = (of_nat (dec_value t2), s3)"
    "\<not> failbit s3" "tokens (buf s3) = t3 # ts"
    using extract_unsigned_token [OF s2(2) s2(3) fl(2)] by blast
  obtain s4 where s4: "extract_unsigned (i_c u) s3 = (of_nat (dec_value t3), s4)"
    using extract_unsigned_token [OF s3(2) s3(3) fl(3)] by blast
  show ?thesis
    using ne by (simp add: loadSMF_line_def s1 s2 s3 s4 face_of_line_def indices_of_line_def tk)
qed

lemma loadSMF_line_other:
  assumes "tokens l = tag # ts" and "hd tag \<noteq> CHR ''v''" and "hd tag \<noteq> CHR ''f''"
  shows "loadSMF_line u l acc = acc"
  using extract_char_first [OF assms(1), of "i_type u"] assms(2,3)
  by (auto simp: loadSMF_line_def split: prod.splits)

lemma load_smf_line_eq: "load_smf_line u l acc = loadSMF_line u l acc"
  by (simp add: load_smf_line_def loadSMF_line_def)

lemma load_smf_loop_eq: "load_smf_loop ind i ls acc = loadSMF_loop ind i ls acc"
  by (induction ls arbitrary: i acc) (simp_all add: load_smf_line_eq)

lemma load_smf_eq: "load_smf ind fs filename = loadSMF ind fs filename"
  by (simp add: load_smf_def loadSMF_def load_smf_loop_eq split: option.splits)

lemma loadSMF_line_valid:
  assumes "valid_line l"
  shows "loadSMF_line u l (vs, fs)
     = (vs @ map vertex_of_line (filter is_v_line [l]), fs @ map face_of_line (filter is_f_line [l]))"
proof -
  consider (e) "l = []" | (v) "is_v_line l" "three_floats l" | (f) "is_f_line l" "three_uints l"
    | (o) tag ts where "tokens l = tag # ts" "hd tag \<noteq> CHR ''v''" "hd tag \<noteq> CHR ''f''"
    using assms by (auto simp: valid_line_def split: list.splits)
  then show ?thesis
  proof cases
    case e
    then show ?thesis
      by (simp add: loadSMF_line_empty is_v_line_def is_f_line_def tokens_empty)
  next
    case v
    then have "\<not> is_f_line l"
      by (auto simp: is_v_line_def is_f_line_def split: list.splits)
    then show ?thesis
      using v by (simp add: loadSMF_line_v)
  next
    case f
    then have "\<not> is_v_line l"
      by (auto simp: is_v_line_def is_f_line_def split: list.splits)
    then show ?thesis
      using f by (simp add: loadSMF_line_f)
  next
    case o
    then have "\<not> is_v_line l" "\<not> is_f_line l"
      by (auto simp: is_v_line_def is_f_line_def)
    then show ?thesis
      using o by (simp add: loadSMF_line_other)
  qed
qed

lemma loadSMF_loop_valid:
  assumes "\<forall>l\<in>set ls. valid_line l"
  shows "loadSMF_loop ind i ls (vs, fs)
     = (vs @ map vertex_of_line (filter is_v_line ls), fs @ map face_of_line (filter is_f_line ls))"
  using assms
proof (induction ls arbitrary: i vs fs)
  case Nil
  then show ?case by simp
next
  case (Cons l ls)
  have "loadSMF_loop ind i (l # ls) (vs, fs)
      = loadSMF_loop ind (Suc i) ls (vs @ map vertex_of_line (filter is_v_line [l]), fs @ map face_of_line (filter is_f_line [l]))"
    using Cons.prems by (simp add: loadSMF_line_valid del: filter.simps)
  also have "\<dots> = (vs @ map vertex_of_line (filter is_v_line (l # ls)), fs @ map face_of_line (filter is_f_line (l # ls)))"
    using Cons.prems by (subst Cons.IH) auto
  finally show ?case .
qed

lemmas reader_defs =
  extract_char_def extract_float_def extract_unsigned_def extract_num_def skipws_def
  isspace_def get_float_def get_unsigned_def isdigit_def dec_value_def digit_val_def
  is_sign_def is_minus_def is_point_def is_exp_mark_def starts_with_def skip_if_def
  pow10_def to_float_def FLT_MAX_def Let_def

lemmas format_defs =
  is_v_line_def is_f_line_def three_floats_def three_uints_def is_float_token_def
  is_uint_token_def vertex_of_line_def face_of_line_def indices_of_line_def float_value_def
  valid_line_def spec_valid_line_def tokens.simps

lemma tok1: "tokens ''vn 0 0 1'' = [''vn'', ''0'', ''0'', ''1'']"
  by (simp add: tokens.simps isspace_def)

text \<open>
  C1, as stated, fails: the loaders test the first non-blank character of a line, not
  its first token.  The one-line file \<open>vn 0 0 1\<close> has no \<open>v\<close> line, its only line has
  another tag, and both loaders store a vertex for it (whose \<open>y\<close> and \<open>z\<close> are read from
  uninitialised locals, since the extraction of \<open>x\<close> has failed on the letter \<open>n\<close>).
\<close>

theorem vn_line_loaded_as_vertex:
  "list_all spec_valid_line (getlines [] ''vn 0 0 1'') \<and>
   filter is_v_line (getlines [] ''vn 0 0 1'') = [] \<and>
   loadSMF no_init (one_file ''m.smf'' ''vn 0 0 1'') ''m.smf'' = Some ([vec3 0 8 9], []) \<and>
   loadSMF no_init (one_file ''m.smf'' ''vn 0 0 1'') ''m.smf''
     \<noteq> Some (map vertex_of_line (filter is_v_line (getlines [] ''vn 0 0 1'')),
             map face_of_line (filter is_f_line (getlines [] ''vn 0 0 1'')))"
  by (simp add: tok1 spec_valid_line_def is_v_line_def is_f_line_def loadSMF_def one_file_def
      loadSMF_line_def no_init_def indet0_def reader_defs)

text \<open>
  C1, amended: for every file each of whose lines is empty, a \<open>v\<close> line with three
  floats after the tag, each within the range of a float, an \<open>f\<close> line with three
  unsigned integers after the tag, each within the range of \<open>unsigned int\<close>, or a line
  whose first non-blank character is neither \<open>v\<close> nor \<open>f\<close>, both loaders succeed and
  produce exactly one vertex for each \<open>v\<close> line, with its three floats in the order
  \<open>x\<close>, \<open>y\<close>, \<open>z\<close>, and one face for each \<open>f\<close> line, both in file order; empty lines
  and the other lines add nothing.
\<close>

theorem loaders_follow_the_lines:
  assumes "fs filename = Some content"
    and "\<forall>l\<in>set (getlines [] content). valid_line l"
  shows "loadSMF ind fs filename
           = Some (map vertex_of_line (filter is_v_line (getlines [] content)),
                   map face_of_line (filter is_f_line (getlines [] content))) \<and>
         load_smf ind fs filename
           = Some (map vertex_of_line (filter is_v_line (getlines [] content)),
                   map face_of_line (filter is_f_line (getlines [] content)))"
  using assms by (simp add: load_smf_eq loadSMF_def loadSMF_loop_valid)

lemma triangle_lines:
  "getlines [] triangle_smf = [''v 0 0 0'', ''v 1 0 0'', ''v 0 1 0'', [], ''# one face'', ''f 1 2 3'']"
  by (simp add: triangle_smf_def)

lemma triangle_tokens:
  "tokens ''v 0 0 0'' = [''v'', ''0'', ''0'', ''0'']"
  "tokens ''v 1 0 0'' = [''v'', ''1'', ''0'', ''0'']"
  "tokens ''v 0 1 0'' = [''v'', ''0'', ''1'', ''0'']"
  "tokens ''# one face'' = [''#'', ''one'', ''face'']"
  "tokens ''f 1 2 3'' = [''f'', ''1'', ''2'', ''3'']"
  "tokens [] = []"
  by (simp_all add: tokens.simps isspace_def)

lemma triangle_valid: "\<forall>l\<in>set (getlines [] triangle_smf). valid_line l"
  by (simp add: triangle_lines valid_line_def is_v_line_def is_f_line_def three_floats_def
      three_uints_def is_float_token_def is_uint_token_def triangle_tokens reader_defs)

theorem loaders_follow_the_lines_witness:
  "one_file ''m.smf'' triangle_smf ''m.smf'' = Some triangle_smf \<and>
   list_all valid_line (getlines [] triangle_smf) \<and>
   loadSMF no_init (one_file ''m.smf'' triangle_smf) ''m.smf''
     = Some ([vec3 0 0 0, vec3 1 0 0, vec3 0 1 0], [vec3 0 1 2]) \<and>
   load_smf no_init (one_file ''m.smf'' triangle_smf) ''m.smf''
     = Some ([vec3 0 0 0, vec3 1 0 0, vec3 0 1 0], [vec3 0 1 2])"
proof -
  have f: "one_file ''m.smf'' triangle_smf ''m.smf'' = Some triangle_smf"
    by (simp add: one_file_def)
  have vs: "map vertex_of_line (filter is_v_line (getlines [] triangle_smf))
      = [vec3 0 0 0, vec3 1 0 0, vec3 0 1 0]"
    by (simp add: triangle_lines is_v_line_def vertex_of_line_def float_value_def
        triangle_tokens reader_defs)
  have fs: "map face_of_line (filter is_f_line (getlines [] triangle_smf)) = [vec3 0 1 2]"
    by (simp add: triangle_lines is_f_line_def face_of_line_def indices_of_line_def
        triangle_tokens reader_defs)
  show ?thesis
    using loaders_follow_the_lines [where fs = "one_file ''m.smf'' triangle_smf"
        and filename = "''m.smf''" and content = triangle_smf and ind = no_init]
      f triangle_valid
    unfolding vs fs list_all_iff by blast
qed

text \<open>A field beyond the range of a float: the reader sets the fail bit, and the line is not valid.\<close>

lemma overflow_tokens: "tokens ''v 1e40 2 3'' = [''v'', ''1e40'', ''2'', ''3'']"
  by (simp add: tokens.simps isspace_def)

lemma overflowing_field:
  "get_float ''1e40'' = (FLT_MAX, [], False)"
  "\<not> is_float_token ''1e40''"
  "\<not> valid_line ''v 1e40 2 3''"
  "loadSMF_line indet0 ''v 1e40 2 3'' ([], []) = ([vec3 FLT_MAX 8 9], [])"
  by (simp_all add: overflow_tokens valid_line_def is_v_line_def is_f_line_def three_floats_def
      is_float_token_def loadSMF_line_def indet0_def reader_defs)

section \<open>Face indices\<close>

lemma unat_pred_index:
  assumes "1 \<le> a" and "a \<le> 4294967295"
  shows "unat (of_nat a - 1 :: 32 word) = a - 1"
proof -
  have "(of_nat a - 1 :: 32 word) = of_nat (a - 1)"
    using assms(1) by (simp add: of_nat_diff)
  moreover have "unat (of_nat (a - 1) :: 32 word) = a - 1"
    using assms(2) by (simp add: unat_of_nat take_bit_nat_eq_self)
  ultimately show ?thesis by simp
qed

lemma f_line_three_uints:
  assumes "valid_line l" and "is_f_line l"
  shows "three_uints l"
  using assms
  by (auto simp: valid_line_def is_f_line_def is_v_line_def tokens_empty split: list.splits)

lemma three_uints_bounds:
  assumes "three_uints l"
  shows "vx (indices_of_line l) \<le> 4294967295 \<and> vy (indices_of_line l) \<le> 4294967295
         \<and> vz (indices_of_line l) \<le> 4294967295"
  using assms
  by (auto simp: three_uints_def indices_of_line_def is_uint_token_def split: list.splits)

lemma face_of_line_sel:
  "vx (face_of_line l) = of_nat (vx (indices_of_line l)) - 1"
  "vy (face_of_line l) = of_nat (vy (indices_of_line l)) - 1"
  "vz (face_of_line l) = of_nat (vz (indices_of_line l)) - 1"
  by (cases "indices_of_line l"; simp add: face_of_line_def)+

text \<open>
  C2: on a valid file, both loaders store, for the \<open>i\<close>-th \<open>f\<close> line of the file, a
  face each of whose three indices is the corresponding integer of the line minus one,
  computed in \<open>unsigned int\<close>; for every integer that is at least 1 (a one-based index)
  the stored index, read as a number, is that integer minus one.
\<close>

theorem face_indices_are_file_values_minus_one:
  assumes "fs filename = Some content"
    and "\<forall>l\<in>set (getlines [] content). valid_line l"
  shows "\<exists>ps faces.
           loadSMF ind fs filename = Some (ps, faces) \<and>
           load_smf ind fs filename = Some (ps, faces) \<and>
           length faces = length (filter is_f_line (getlines [] content)) \<and>
           (\<forall>i<length faces.
              vx (faces ! i) = of_nat (vx (indices_of_line (filter is_f_line (getlines [] content) ! i))) - 1 \<and>
              vy (faces ! i) = of_nat (vy (indices_of_line (filter is_f_line (getlines [] content) ! i))) - 1 \<and>
              vz (faces ! i) = of_nat (vz (indices_of_line (filter is_f_line (getlines [] content) ! i))) - 1 \<and>
              (1 \<le> vx (indices_of_line (filter is_f_line (getlines [] content) ! i)) \<longrightarrow>
                 unat (vx (faces ! i)) = vx (indices_of_line (filter is_f_line (getlines [] content) ! i)) - 1) \<and>
              (1 \<le> vy (indices_of_line (filter is_f_line (getlines [] content) ! i)) \<longrightarrow>
                 unat (vy (faces ! i)) = vy (indices_of_line (filter is_f_line (getlines [] content) ! i)) - 1) \<and>
              (1 \<le> vz (indices_of_line (filter is_f_line (getlines [] content) ! i)) \<longrightarrow>
                 unat (vz (faces ! i)) = vz (indices_of_line (filter is_f_line (getlines [] content) ! i)) - 1))"
proof -
  let ?ls = "getlines [] content"
  let ?fl = "filter is_f_line ?ls"
  let ?ps = "map vertex_of_line (filter is_v_line ?ls)"
  let ?faces = "map face_of_line ?fl"
  have ld: "loadSMF ind fs filename = Some (?ps, ?faces)"
    using assms by (simp add: loadSMF_def loadSMF_loop_valid)
  have "\<And>i. i < length ?fl \<Longrightarrow> three_uints (?fl ! i)"
  proof -
    fix i assume "i < length ?fl"
    then have "?fl ! i \<in> set ?fl"
      by (rule nth_mem)
    then have "?fl ! i \<in> set ?ls" "is_f_line (?fl ! i)"
      by auto
    then show "three_uints (?fl ! i)"
      using assms(2) f_line_three_uints by blast
  qed
  then have b: "\<And>i. i < length ?fl \<Longrightarrow>
      vx (indices_of_line (?fl ! i)) \<le> 4294967295 \<and> vy (indices_of_line (?fl ! i)) \<le> 4294967295
      \<and> vz (indices_of_line (?fl ! i)) \<le> 4294967295"
    using three_uints_bounds by blast
  have ld2: "load_smf ind fs filename = Some (?ps, ?faces)"
    using ld by (simp add: load_smf_eq)
  have len: "length ?faces = length ?fl"
    by simp
  have "\<forall>i<length ?faces.
      vx (?faces ! i) = of_nat (vx (indices_of_line (?fl ! i))) - 1 \<and>
      vy (?faces ! i) = of_nat (vy (indices_of_line (?fl ! i))) - 1 \<and>
      vz (?faces ! i) = of_nat (vz (indices_of_line (?fl ! i))) - 1 \<and>
      (1 \<le> vx (indices_of_line (?fl ! i)) \<longrightarrow>
         unat (vx (?faces ! i)) = vx (indices_of_line (?fl ! i)) - 1) \<and>
      (1 \<le> vy (indices_of_line (?fl ! i)) \<longrightarrow>
         unat (vy (?faces ! i)) = vy (indices_of_line (?fl ! i)) - 1) \<and>
      (1 \<le> vz (indices_of_line (?fl ! i)) \<longrightarrow>
         unat (vz (?faces ! i)) = vz (indices_of_line (?fl ! i)) - 1)"
    using b by (simp add: face_of_line_sel unat_pred_index)
  then show ?thesis
    using ld ld2 len by blast
qed


lemma triangle_f_lines: "filter is_f_line (getlines [] triangle_smf) = [''f 1 2 3'']"
  by (simp add: triangle_lines is_f_line_def triangle_tokens)

lemma triangle_indices: "indices_of_line ''f 1 2 3'' = vec3 1 2 3"
  by (simp add: indices_of_line_def triangle_tokens dec_value_def digit_val_def)

theorem face_indices_are_file_values_minus_one_witness:
  "one_file ''m.smf'' triangle_smf ''m.smf'' = Some triangle_smf \<and>
   list_all valid_line (getlines [] triangle_smf) \<and>
   indices_of_line (filter is_f_line (getlines [] triangle_smf) ! 0) = vec3 1 2 3 \<and>
   (\<exists>ps faces.
      loadSMF no_init (one_file ''m.smf'' triangle_smf) ''m.smf'' = Some (ps, faces) \<and>
      load_smf no_init (one_file ''m.smf'' triangle_smf) ''m.smf'' = Some (ps, faces) \<and>
      length faces = 1 \<and>
      unat (vx (faces ! 0)) = 0 \<and> unat (vy (faces ! 0)) = 1 \<and> unat (vz (faces ! 0)) = 2)"
proof -
  have f: "one_file ''m.smf'' triangle_smf ''m.smf'' = Some triangle_smf"
    by (simp add: one_file_def)
  obtain ps faces where
    l1: "loadSMF no_init (one_file ''m.smf'' triangle_smf) ''m.smf'' = Some (ps, faces)" and
    l2: "load_smf no_init (one_file ''m.smf'' triangle_smf) ''m.smf'' = Some (ps, faces)" and
    len: "length faces = length (filter is_f_line (getlines [] triangle_smf))" and
    ix: "\<forall>i<length faces.
      vx (faces ! i) = of_nat (vx (indices_of_line (filter is_f_line (getlines [] triangle_smf) ! i))) - 1 \<and>
      vy (faces ! i) = of_nat (vy (indices_of_line (filter is_f_line (getlines [] triangle_smf) ! i))) - 1 \<and>
      vz (faces ! i) = of_nat (vz (indices_of_line (filter is_f_line (getlines [] triangle_smf) ! i))) - 1 \<and>
      (1 \<le> vx (indices_of_line (filter is_f_line (getlines [] triangle_smf) ! i)) \<longrightarrow>
         unat (vx (faces ! i)) = vx (indices_of_line (filter is_f_line (getlines [] triangle_smf) ! i)) - 1) \<and>
      (1 \<le> vy (indices_of_line (filter is_f_line (getlines [] triangle_smf) ! i)) \<longrightarrow>
         unat (vy (faces ! i)) = vy (indices_of_line (filter is_f_line (getlines [] triangle_smf) ! i)) - 1) \<and>
      (1 \<le> vz (indices_of_line (filter is_f_line (getlines [] triangle_smf) ! i)) \<longrightarrow>
         unat (vz (faces ! i)) = vz (indices_of_line (filter is_f_line (getlines [] triangle_smf) ! i)) - 1)"
    using face_indices_are_file_values_minus_one [where fs = "one_file ''m.smf'' triangle_smf"
        and filename = "''m.smf''" and content = triangle_smf and ind = no_init, OF f triangle_valid]
    by blast
  have len1: "length faces = 1"
    using len by (simp add: triangle_f_lines)
  have "unat (vx (faces ! 0)) = 0 \<and> unat (vy (faces ! 0)) = 1 \<and> unat (vz (faces ! 0)) = 2"
    using ix len1 by (simp add: triangle_f_lines triangle_indices)
  then show ?thesis
    using f triangle_valid l1 l2 len1
    by (simp add: triangle_f_lines triangle_indices list_all_iff)
qed

section \<open>An index 0 in a face line\<close>

lemma build_flat_out_of_range:
  assumes "f \<in> set faces" and "\<not> face_in_range (length positions) f"
  shows "build_flat positions faces vertices = Inl OutOfRange"
  using assms by (induction faces arbitrary: vertices) (auto simp: Let_def)

lemma compute_faceNormals_out_of_range:
  assumes "f \<in> set faces" and "\<not> face_in_range (length positions) f"
  shows "compute_faceNormals positions faces = Inl OutOfRange"
  using assms by (induction faces) (auto simp: Let_def split: sum.splits)

lemma compute_vertexNormals_out_of_range:
  assumes "f \<in> set faces" and "\<not> face_in_range (length positions) f"
  shows "compute_vertexNormals positions faces = Inl OutOfRange"
  using compute_faceNormals_out_of_range [OF assms] by (simp add: compute_vertexNormals_def)

lemma max_word_index: "unat (- 1 :: 32 word) = 4294967295"
  by (simp add: unsigned_minus_1_eq_mask mask_eq_exp_minus_1)

text \<open>
  C10: when an \<open>f\<close> line of a valid file has the integer 0 as one of its indices, both
  loaders still succeed, and the face they store for it has \<open>4294967295 = 2^32 - 1\<close> in
  that place; no check against the number of vertices is made, so with fewer than
  \<open>2^32\<close> vertices the face reaches the normal computation of either program with an
  index beyond the vertices.
\<close>

theorem zero_index_wraps:
  assumes "fs filename = Some content"
    and "\<forall>l\<in>set (getlines [] content). valid_line l"
    and "l \<in> set (getlines [] content)" and "is_f_line l"
    and "vx (indices_of_line l) = 0 \<or> vy (indices_of_line l) = 0 \<or> vz (indices_of_line l) = 0"
  shows "\<exists>ps faces f.
           loadSMF ind fs filename = Some (ps, faces) \<and>
           load_smf ind fs filename = Some (ps, faces) \<and>
           f \<in> set faces \<and>
           (vx (indices_of_line l) = 0 \<longrightarrow> vx f = 4294967295 \<and> unat (vx f) = 2 ^ 32 - 1) \<and>
           (vy (indices_of_line l) = 0 \<longrightarrow> vy f = 4294967295 \<and> unat (vy f) = 2 ^ 32 - 1) \<and>
           (vz (indices_of_line l) = 0 \<longrightarrow> vz f = 4294967295 \<and> unat (vz f) = 2 ^ 32 - 1) \<and>
           (length ps \<le> 4294967295 \<longrightarrow>
              build_flat ps faces [] = Inl OutOfRange \<and>
              compute_vertexNormals ps faces = Inl OutOfRange)"
proof -
  let ?ls = "getlines [] content"
  let ?ps = "map vertex_of_line (filter is_v_line ?ls)"
  let ?faces = "map face_of_line (filter is_f_line ?ls)"
  let ?f = "face_of_line l"
  have ld: "loadSMF ind fs filename = Some (?ps, ?faces)"
    using assms(1,2) by (simp add: loadSMF_def loadSMF_loop_valid)
  have ld2: "load_smf ind fs filename = Some (?ps, ?faces)"
    using ld by (simp add: load_smf_eq)
  have mem: "?f \<in> set ?faces"
    using assms(3,4) by simp
  have x: "vx (indices_of_line l) = 0 \<longrightarrow> vx ?f = 4294967295 \<and> unat (vx ?f) = 2 ^ 32 - 1"
    by (simp add: face_of_line_sel max_word_index)
  have y: "vy (indices_of_line l) = 0 \<longrightarrow> vy ?f = 4294967295 \<and> unat (vy ?f) = 2 ^ 32 - 1"
    by (simp add: face_of_line_sel max_word_index)
  have z: "vz (indices_of_line l) = 0 \<longrightarrow> vz ?f = 4294967295 \<and> unat (vz ?f) = 2 ^ 32 - 1"
    by (simp add: face_of_line_sel max_word_index)
  have "length ?ps \<le> 4294967295 \<longrightarrow> \<not> face_in_range (length ?ps) ?f"
    using assms(5) x y z by (auto simp: face_in_range_def)
  then have nr: "length ?ps \<le> 4294967295 \<longrightarrow>
      build_flat ?ps ?faces [] = Inl OutOfRange \<and> compute_vertexNormals ?ps ?faces = Inl OutOfRange"
    using build_flat_out_of_range [OF mem] compute_vertexNormals_out_of_range [OF mem] by blast
  show ?thesis
    by (rule exI [of _ ?ps], rule exI [of _ ?faces], rule exI [of _ ?f])
      (intro conjI ld ld2 mem x y z nr)
qed

lemma zero_face_tokens: "tokens ''f 0 1 2'' = [''f'', ''0'', ''1'', ''2'']"
  by (simp add: tokens.simps isspace_def)

lemma zero_face_lines: "getlines [] ''f 0 1 2'' = [''f 0 1 2'']"
  by simp

theorem zero_index_wraps_witness:
  "one_file ''m.smf'' ''f 0 1 2'' ''m.smf'' = Some ''f 0 1 2'' \<and>
   list_all valid_line (getlines [] ''f 0 1 2'') \<and>
   ''f 0 1 2'' \<in> set (getlines [] ''f 0 1 2'') \<and> is_f_line ''f 0 1 2'' \<and>
   vx (indices_of_line ''f 0 1 2'') = 0 \<and>
   (\<exists>ps faces f.
      loadSMF no_init (one_file ''m.smf'' ''f 0 1 2'') ''m.smf'' = Some (ps, faces) \<and>
      load_smf no_init (one_file ''m.smf'' ''f 0 1 2'') ''m.smf'' = Some (ps, faces) \<and>
      f \<in> set faces \<and> vx f = 4294967295 \<and> unat (vx f) = 2 ^ 32 - 1 \<and>
      (length ps \<le> 4294967295 \<longrightarrow>
         build_flat ps faces [] = Inl OutOfRange \<and>
         compute_vertexNormals ps faces = Inl OutOfRange))"
proof -
  have h1: "one_file ''m.smf'' ''f 0 1 2'' ''m.smf'' = Some ''f 0 1 2''"
    by (simp add: one_file_def)
  have h4: "is_f_line ''f 0 1 2''"
    by (simp add: is_f_line_def zero_face_tokens)
  have "three_uints ''f 0 1 2''"
    by (simp add: three_uints_def is_uint_token_def zero_face_tokens isdigit_def dec_value_def
        digit_val_def)
  then have h2: "\<forall>l\<in>set (getlines [] ''f 0 1 2''). valid_line l"
    using h4 by (simp add: valid_line_def)
  have h3: "''f 0 1 2'' \<in> set (getlines [] ''f 0 1 2'')"
    by simp
  have h5: "vx (indices_of_line ''f 0 1 2'') = 0"
    by (simp add: indices_of_line_def zero_face_tokens dec_value_def digit_val_def)
  have h5': "vx (indices_of_line ''f 0 1 2'') = 0 \<or> vy (indices_of_line ''f 0 1 2'') = 0
      \<or> vz (indices_of_line ''f 0 1 2'') = 0"
    using h5 by blast
  show ?thesis
    using zero_index_wraps [where fs = "one_file ''m.smf'' ''f 0 1 2''" and filename = "''m.smf''"
        and content = "''f 0 1 2''" and l = "''f 0 1 2''" and ind = no_init, OF h1 h2 h3 h4 h5']
      h1 h2 h3 h4 h5
    unfolding list_all_iff by blast
qed

section \<open>The flat variant\<close>

lemma length_flat_triple: "length (flat_triple positions f) = 3"
  by (simp add: flat_triple_def Let_def)

lemma build_flat_closed:
  assumes "\<forall>f\<in>set faces. face_in_range (length positions) f"
  shows "build_flat positions faces vertices
           = Inr (vertices @ concat (map (flat_triple positions) faces))"
  using assms
  by (induction faces arbitrary: vertices)
    (simp_all add: flat_triple_def face_normal_def Let_def)

lemma length_concat_triples:
  "length (concat (map (flat_triple positions) faces)) = 3 * length faces"
  by (induction faces) (simp_all add: length_flat_triple)

lemma nth_concat_triples:
  assumes "i < length faces" and "k < 3"
  shows "concat (map (flat_triple positions) faces) ! (3 * i + k)
           = flat_triple positions (faces ! i) ! k"
  using assms
proof (induction faces arbitrary: i)
  case Nil
  then show ?case by simp
next
  case (Cons f fs)
  show ?case
  proof (cases i)
    case 0
    then show ?thesis
      using Cons.prems(2) by (simp add: nth_append length_flat_triple)
  next
    case (Suc j)
    then have "3 * i + k = 3 + (3 * j + k)"
      by simp
    then show ?thesis
      using Cons.IH [of j] Cons.prems Suc by (simp add: nth_append length_flat_triple)
  qed
qed


lemma unit_triangle_normal:
  "face_normal (vec3 0 0 0) (vec3 1 0 0) (vec3 0 1 0) = vec3 0 0 1"
  by (simp add: face_normal_def glm_normalize_def glm_cross_def vsub_def glm_dot_def
      glm_inversesqrt_def vmuls_def)

lemma pos_flat_triple:
  "pos (flat_triple positions f ! 0) = positions ! unat (vx f)"
  "pos (flat_triple positions f ! 1) = positions ! unat (vy f)"
  "pos (flat_triple positions f ! 2) = positions ! unat (vz f)"
  by (simp_all add: flat_triple_def Let_def)

text \<open>
  C3: when every face index is within the vertices, the flat variant emits, for the
  \<open>i\<close>-th face with corners \<open>p0\<close>, \<open>p1\<close>, \<open>p2\<close>, exactly the three vertices
  \<open>3i\<close>, \<open>3i + 1\<close>, \<open>3i + 2\<close>, at \<open>p0\<close>, \<open>p1\<close>, \<open>p2\<close>, and the list has three times
  as many vertices as there are faces.  When the face is not degenerate, each of the three
  has the normal \<open>n = normalize (cross (p1 - p0, p2 - p0))\<close> and the colour \<open>abs n\<close>.
  For the corners \<open>(0,0,0)\<close>, \<open>(1,0,0)\<close>, \<open>(0,1,0)\<close> the normal is \<open>(0,0,1)\<close>.
  (In exact real arithmetic; the normal of a degenerate face is a NaN in the code, and
  nothing is said of it.)
\<close>

theorem flat_variant_vertices:
  assumes "\<forall>f\<in>set faces. face_in_range (length positions) f"
  shows "\<exists>vertices.
           build_flat positions faces [] = Inr vertices \<and>
           length vertices = 3 * length faces \<and>
           (\<forall>i<length faces.
              \<exists>p0 p1 p2 n.
                p0 = positions ! unat (vx (faces ! i)) \<and>
                p1 = positions ! unat (vy (faces ! i)) \<and>
                p2 = positions ! unat (vz (faces ! i)) \<and>
                n = glm_normalize (glm_cross (vsub p1 p0) (vsub p2 p0)) \<and>
                pos (vertices ! (3 * i)) = p0 \<and>
                pos (vertices ! (3 * i + 1)) = p1 \<and>
                pos (vertices ! (3 * i + 2)) = p2 \<and>
                (glm_cross (vsub p1 p0) (vsub p2 p0) \<noteq> vzero \<longrightarrow>
                   vertices ! (3 * i) = \<lparr>pos = p0, normal = n, color = glm_abs n\<rparr> \<and>
                   vertices ! (3 * i + 1) = \<lparr>pos = p1, normal = n, color = glm_abs n\<rparr> \<and>
                   vertices ! (3 * i + 2) = \<lparr>pos = p2, normal = n, color = glm_abs n\<rparr>)) \<and>
           glm_normalize (glm_cross (vsub (vec3 1 0 0) (vec3 0 0 0)) (vsub (vec3 0 1 0) (vec3 0 0 0)))
             = vec3 0 0 1"
proof -
  let ?vs = "concat (map (flat_triple positions) faces)"
  have b: "build_flat positions faces [] = Inr ?vs"
    using build_flat_closed [OF assms, of "[]"] by simp
  have n: "\<And>i k. i < length faces \<Longrightarrow> k < 3 \<Longrightarrow>
      ?vs ! (3 * i + k) = flat_triple positions (faces ! i) ! k"
    by (rule nth_concat_triples)
  have "\<forall>i<length faces.
      \<exists>p0 p1 p2 n.
        p0 = positions ! unat (vx (faces ! i)) \<and>
        p1 = positions ! unat (vy (faces ! i)) \<and>
        p2 = positions ! unat (vz (faces ! i)) \<and>
        n = glm_normalize (glm_cross (vsub p1 p0) (vsub p2 p0)) \<and>
        pos (?vs ! (3 * i)) = p0 \<and>
        pos (?vs ! (3 * i + 1)) = p1 \<and>
        pos (?vs ! (3 * i + 2)) = p2 \<and>
        (glm_cross (vsub p1 p0) (vsub p2 p0) \<noteq> vzero \<longrightarrow>
           ?vs ! (3 * i) = \<lparr>pos = p0, normal = n, color = glm_abs n\<rparr> \<and>
           ?vs ! (3 * i + 1) = \<lparr>pos = p1, normal = n, color = glm_abs n\<rparr> \<and>
           ?vs ! (3 * i + 2) = \<lparr>pos = p2, normal = n, color = glm_abs n\<rparr>)"
  proof (intro allI impI)
    fix i assume i: "i < length faces"
    have "?vs ! (3 * i) = flat_triple positions (faces ! i) ! 0"
      using n [OF i, of 0] by simp
    moreover have "?vs ! (3 * i + 1) = flat_triple positions (faces ! i) ! 1"
      using n [OF i, of 1] by simp
    moreover have "?vs ! (3 * i + 2) = flat_triple positions (faces ! i) ! 2"
      using n [OF i, of 2] by simp
    ultimately show "\<exists>p0 p1 p2 n.
        p0 = positions ! unat (vx (faces ! i)) \<and>
        p1 = positions ! unat (vy (faces ! i)) \<and>
        p2 = positions ! unat (vz (faces ! i)) \<and>
        n = glm_normalize (glm_cross (vsub p1 p0) (vsub p2 p0)) \<and>
        pos (?vs ! (3 * i)) = p0 \<and>
        pos (?vs ! (3 * i + 1)) = p1 \<and>
        pos (?vs ! (3 * i + 2)) = p2 \<and>
        (glm_cross (vsub p1 p0) (vsub p2 p0) \<noteq> vzero \<longrightarrow>
           ?vs ! (3 * i) = \<lparr>pos = p0, normal = n, color = glm_abs n\<rparr> \<and>
           ?vs ! (3 * i + 1) = \<lparr>pos = p1, normal = n, color = glm_abs n\<rparr> \<and>
           ?vs ! (3 * i + 2) = \<lparr>pos = p2, normal = n, color = glm_abs n\<rparr>)"
      by (simp add: flat_triple_def face_normal_def Let_def)
  qed
  moreover have "glm_normalize (glm_cross (vsub (vec3 1 0 0) (vec3 0 0 0)) (vsub (vec3 0 1 0) (vec3 0 0 0)))
             = vec3 0 0 1"
    using unit_triangle_normal by (simp add: face_normal_def)
  ultimately show ?thesis
    using b length_concat_triples [of positions faces] by blast
qed

lemma triangle_in_range: "\<forall>f\<in>set triangle_faces. face_in_range (length triangle_positions) f"
  by (simp add: triangle_faces_def triangle_positions_def face_in_range_def)

lemma sqrt_16: "sqrt 16 = 4"
  by (rule real_sqrt_unique) simp_all

lemma wide_in_range: "\<forall>f\<in>set wide_faces. face_in_range (length wide_positions) f"
  by (simp add: wide_faces_def wide_positions_def face_in_range_def)

lemma wide_cross:
  "glm_cross (vsub (wide_positions ! unat (vy (wide_faces ! 0)))
                   (wide_positions ! unat (vx (wide_faces ! 0))))
             (vsub (wide_positions ! unat (vz (wide_faces ! 0)))
                   (wide_positions ! unat (vx (wide_faces ! 0)))) = vec3 0 0 (- 4)"
  by (simp add: wide_faces_def wide_positions_def glm_cross_def vsub_def)

theorem flat_variant_vertices_witness:
  "list_all (face_in_range (length wide_positions)) wide_faces \<and>
   glm_cross (vsub (wide_positions ! unat (vy (wide_faces ! 0)))
                   (wide_positions ! unat (vx (wide_faces ! 0))))
             (vsub (wide_positions ! unat (vz (wide_faces ! 0)))
                   (wide_positions ! unat (vx (wide_faces ! 0)))) = vec3 0 0 (- 4) \<and>
   (\<exists>vertices.
      build_flat wide_positions wide_faces [] = Inr vertices \<and>
      length vertices = 3 \<and>
      vertices ! 0 = \<lparr>pos = vec3 0 0 0, normal = vec3 0 0 (- 1), color = vec3 0 0 1\<rparr> \<and>
      vertices ! 1 = \<lparr>pos = vec3 0 2 0, normal = vec3 0 0 (- 1), color = vec3 0 0 1\<rparr> \<and>
      vertices ! 2 = \<lparr>pos = vec3 2 0 0, normal = vec3 0 0 (- 1), color = vec3 0 0 1\<rparr>)"
proof -
  obtain vertices where
    b: "build_flat wide_positions wide_faces [] = Inr vertices" and
    l: "length vertices = 3 * length wide_faces" and
    v: "\<forall>i<length wide_faces.
              \<exists>p0 p1 p2 n.
                p0 = wide_positions ! unat (vx (wide_faces ! i)) \<and>
                p1 = wide_positions ! unat (vy (wide_faces ! i)) \<and>
                p2 = wide_positions ! unat (vz (wide_faces ! i)) \<and>
                n = glm_normalize (glm_cross (vsub p1 p0) (vsub p2 p0)) \<and>
                pos (vertices ! (3 * i)) = p0 \<and>
                pos (vertices ! (3 * i + 1)) = p1 \<and>
                pos (vertices ! (3 * i + 2)) = p2 \<and>
                (glm_cross (vsub p1 p0) (vsub p2 p0) \<noteq> vzero \<longrightarrow>
                   vertices ! (3 * i) = \<lparr>pos = p0, normal = n, color = glm_abs n\<rparr> \<and>
                   vertices ! (3 * i + 1) = \<lparr>pos = p1, normal = n, color = glm_abs n\<rparr> \<and>
                   vertices ! (3 * i + 2) = \<lparr>pos = p2, normal = n, color = glm_abs n\<rparr>)"
    using flat_variant_vertices [OF wide_in_range] by blast
  have i0: "0 < length wide_faces"
    by (simp add: wide_faces_def)
  have nz: "vec3 0 0 (- 4) \<noteq> vzero"
    by (simp add: vzero_def)
  have nn: "glm_normalize (vec3 0 0 (- 4)) = vec3 0 0 (- 1)"
    by (simp add: glm_normalize_def glm_dot_def glm_inversesqrt_def vmuls_def sqrt_16)
  from v i0 wide_cross nz
  have "vertices ! (3 * 0)
      = \<lparr>pos = wide_positions ! unat (vx (wide_faces ! 0)),
         normal = glm_normalize (vec3 0 0 (- 4)),
         color = glm_abs (glm_normalize (vec3 0 0 (- 4)))\<rparr> \<and>
    vertices ! (3 * 0 + 1)
      = \<lparr>pos = wide_positions ! unat (vy (wide_faces ! 0)),
         normal = glm_normalize (vec3 0 0 (- 4)),
         color = glm_abs (glm_normalize (vec3 0 0 (- 4)))\<rparr> \<and>
    vertices ! (3 * 0 + 2)
      = \<lparr>pos = wide_positions ! unat (vz (wide_faces ! 0)),
         normal = glm_normalize (vec3 0 0 (- 4)),
         color = glm_abs (glm_normalize (vec3 0 0 (- 4)))\<rparr>"
    by metis
  then have "vertices ! 0 = \<lparr>pos = vec3 0 0 0, normal = vec3 0 0 (- 1), color = vec3 0 0 1\<rparr> \<and>
      vertices ! Suc 0 = \<lparr>pos = vec3 0 2 0, normal = vec3 0 0 (- 1), color = vec3 0 0 1\<rparr> \<and>
      vertices ! Suc (Suc 0) = \<lparr>pos = vec3 2 0 0, normal = vec3 0 0 (- 1), color = vec3 0 0 1\<rparr>"
    by (simp add: nn glm_abs_def wide_faces_def wide_positions_def)
  moreover have "vertices ! 2 = vertices ! Suc (Suc 0)"
    by (simp add: numeral_2_eq_2)
  ultimately have "vertices ! 0 = \<lparr>pos = vec3 0 0 0, normal = vec3 0 0 (- 1), color = vec3 0 0 1\<rparr> \<and>
      vertices ! 1 = \<lparr>pos = vec3 0 2 0, normal = vec3 0 0 (- 1), color = vec3 0 0 1\<rparr> \<and>
      vertices ! 2 = \<lparr>pos = vec3 2 0 0, normal = vec3 0 0 (- 1), color = vec3 0 0 1\<rparr>"
    by simp
  then show ?thesis
    using b l wide_in_range wide_cross by (auto simp: wide_faces_def list_all_iff)
qed

section \<open>The smooth variant\<close>

lemma vadd_assoc: "vadd (vadd a b) c = vadd a (vadd b c)"
  by (simp add: vadd_def)

lemma vadd_vzero [simp]: "vadd a vzero = a" "vadd vzero a = a"
  by (cases a; simp add: vadd_def vzero_def)+

lemma vmuls_0 [simp]: "vmuls a 0 = vzero"
  by (simp add: vmuls_def vzero_def)

lemma vmuls_1 [simp]: "vmuls a 1 = a"
  by (cases a) (simp add: vmuls_def)

lemma compute_faceNormals_closed:
  assumes "\<forall>f\<in>set faces. face_in_range (length positions) f"
  shows "compute_faceNormals positions faces = Inr (map (normal_of_face positions) faces)"
  using assms
  by (induction faces) (simp_all add: normal_of_face_def face_normal_def Let_def)

lemma accumulate_step_sum:
  assumes "face_in_range (length vn) f" and "v < length vn"
  shows "(vn[unat (vx f) := vadd (vn ! unat (vx f)) n,
             unat (vy f) := vadd (vn[unat (vx f) := vadd (vn ! unat (vx f)) n] ! unat (vy f)) n,
             unat (vz f) := vadd (vn[unat (vx f) := vadd (vn ! unat (vx f)) n,
                unat (vy f) := vadd (vn[unat (vx f) := vadd (vn ! unat (vx f)) n] ! unat (vy f)) n]
                  ! unat (vz f)) n]) ! v
         = vadd (vn ! v) (vmuls n (real (occ v f)))"
  using assms
  by (cases n; cases "vn ! v")
    (auto simp: face_in_range_def occ_def nth_list_update vadd_def vmuls_def)

lemma int_incr_funpow:
  "int_incr c = (int_incr ^^ 1) c"
  "int_incr (int_incr c) = (int_incr ^^ 2) c"
  "int_incr (int_incr (int_incr c)) = (int_incr ^^ 3) c"
  by (simp_all add: numeral_2_eq_2 numeral_3_eq_3)

lemma accumulate_step_count:
  assumes "face_in_range (length cnt) f" and "v < length cnt"
  shows "(cnt[unat (vx f) := int_incr (cnt ! unat (vx f)),
             unat (vy f) := int_incr (cnt[unat (vx f) := int_incr (cnt ! unat (vx f))] ! unat (vy f)),
             unat (vz f) := int_incr (cnt[unat (vx f) := int_incr (cnt ! unat (vx f)),
                unat (vy f) := int_incr (cnt[unat (vx f) := int_incr (cnt ! unat (vx f))] ! unat (vy f))]
                  ! unat (vz f))]) ! v
         = (int_incr ^^ occ v f) (cnt ! v)"
  using assms
  by (auto simp: face_in_range_def occ_def nth_list_update numeral_2_eq_2 numeral_3_eq_3)

lemma accumulate_closed:
  assumes "\<forall>f\<in>set fs. face_in_range k f" and "length vn = k" and "length cnt = k"
    and "length ns = length fs"
  shows "\<exists>vn' cnt'. accumulate fs ns (vn, cnt) = Inr (vn', cnt') \<and>
           length vn' = k \<and> length cnt' = k \<and>
           (\<forall>v<k. vn' ! v = vadd (vn ! v) (wsum v fs ns) \<and>
                  cnt' ! v = (int_incr ^^ sum_list (map (occ v) fs)) (cnt ! v))"
  using assms
proof (induction fs arbitrary: ns vn cnt)
  case Nil
  then show ?case by simp
next
  case (Cons f fs)
  then obtain n ns' where ns: "ns = n # ns'" and len: "length ns' = length fs"
    by (cases ns) auto
  have fr: "face_in_range k f"
    using Cons.prems(1) by simp
  let ?ix = "unat (vx f)" and ?iy = "unat (vy f)" and ?iz = "unat (vz f)"
  let ?vn1 = "vn[?ix := vadd (vn ! ?ix) n]"
  let ?vn2 = "?vn1[?iy := vadd (?vn1 ! ?iy) n]"
  let ?vn3 = "?vn2[?iz := vadd (?vn2 ! ?iz) n]"
  let ?c1 = "cnt[?ix := int_incr (cnt ! ?ix)]"
  let ?c2 = "?c1[?iy := int_incr (?c1 ! ?iy)]"
  let ?c3 = "?c2[?iz := int_incr (?c2 ! ?iz)]"
  have step: "accumulate (f # fs) ns (vn, cnt) = accumulate fs ns' (?vn3, ?c3)"
    using fr Cons.prems(2,3) by (simp add: ns Let_def)
  obtain vn' cnt' where r: "accumulate fs ns' (?vn3, ?c3) = Inr (vn', cnt')"
    "length vn' = k" "length cnt' = k"
    "\<forall>v<k. vn' ! v = vadd (?vn3 ! v) (wsum v fs ns') \<and>
            cnt' ! v = (int_incr ^^ sum_list (map (occ v) fs)) (?c3 ! v)"
    using Cons.IH [of ?vn3 ?c3 ns'] Cons.prems len by auto
  have "\<forall>v<k. vn' ! v = vadd (vn ! v) (wsum v (f # fs) ns) \<and>
            cnt' ! v = (int_incr ^^ sum_list (map (occ v) (f # fs))) (cnt ! v)"
  proof (intro allI impI)
    fix v assume v: "v < k"
    have a: "?vn3 ! v = vadd (vn ! v) (vmuls n (real (occ v f)))"
      using accumulate_step_sum [of vn f v n] fr v Cons.prems(2) by simp
    have b: "?c3 ! v = (int_incr ^^ occ v f) (cnt ! v)"
      using accumulate_step_count [of cnt f v] fr v Cons.prems(3) by simp
    have c: "(int_incr ^^ sum_list (map (occ v) fs)) ((int_incr ^^ occ v f) (cnt ! v))
        = (int_incr ^^ sum_list (map (occ v) (f # fs))) (cnt ! v)"
    proof -
      have "sum_list (map (occ v) (f # fs)) = sum_list (map (occ v) fs) + occ v f"
        by simp
      then show ?thesis
        by (simp only: funpow_add o_apply)
    qed
    show "vn' ! v = vadd (vn ! v) (wsum v (f # fs) ns) \<and>
            cnt' ! v = (int_incr ^^ sum_list (map (occ v) (f # fs))) (cnt ! v)"
      using r(4) v a b c by (simp add: ns vadd_assoc)
  qed
  then show ?case
    using step r(1,2,3) by simp
qed


lemma length_normalize_loop: "length (normalize_loop vn cnt) = length vn"
  by (induction vn cnt rule: normalize_loop.induct) simp_all

lemma nth_normalize_loop:
  assumes "i < length vn" and "i < length cnt"
  shows "normalize_loop vn cnt ! i
           = (if cnt ! i > 0 then glm_normalize (vdivs (vn ! i) (real_of_int (cnt ! i)))
              else vn ! i)"
  using assms
proof (induction vn cnt arbitrary: i rule: normalize_loop.induct)
  case (1 v vs c cs)
  then show ?case
    by (cases i) simp_all
qed simp_all

lemma compute_vertexNormals_closed:
  assumes "\<forall>f\<in>set faces. face_in_range (length positions) f"
  shows "\<exists>vn cnt.
           accumulate faces (map (normal_of_face positions) faces)
             (replicate (length positions) vzero, replicate (length positions) 0) = Inr (vn, cnt) \<and>
           compute_vertexNormals positions faces = Inr (normalize_loop vn cnt) \<and>
           length vn = length positions \<and> length cnt = length positions \<and>
           (\<forall>v<length positions.
              vn ! v = wsum v faces (map (normal_of_face positions) faces) \<and>
              cnt ! v = (int_incr ^^ sum_list (map (occ v) faces)) 0)"
proof -
  let ?k = "length positions"
  obtain vn cnt where r:
    "accumulate faces (map (normal_of_face positions) faces)
       (replicate ?k vzero, replicate ?k 0) = Inr (vn, cnt)"
    "length vn = ?k" "length cnt = ?k"
    "\<forall>v<?k. vn ! v = vadd (replicate ?k vzero ! v) (wsum v faces (map (normal_of_face positions) faces)) \<and>
            cnt ! v = (int_incr ^^ sum_list (map (occ v) faces)) (replicate ?k 0 ! v)"
    using accumulate_closed [OF assms, of "replicate ?k vzero" "replicate ?k 0"
        "map (normal_of_face positions) faces"]
    by auto
  have "compute_vertexNormals positions faces = Inr (normalize_loop vn cnt)"
    by (simp add: compute_vertexNormals_def compute_faceNormals_closed [OF assms] r(1))
  moreover have "\<forall>v<?k. vn ! v = wsum v faces (map (normal_of_face positions) faces) \<and>
              cnt ! v = (int_incr ^^ sum_list (map (occ v) faces)) 0"
    using r(4) by simp
  ultimately show ?thesis
    using r(1,2,3) by blast
qed

lemma occ_0_iff: "occ v f = 0 \<longleftrightarrow> \<not> refs v f"
  by (simp add: occ_def refs_def)

lemma wsum_unreferenced:
  assumes "\<forall>f\<in>set fs. \<not> refs v f"
  shows "wsum v fs ns = vzero"
  using assms
  by (induction v fs ns rule: wsum.induct) (simp_all add: occ_0_iff [symmetric])

lemma count_unreferenced:
  assumes "\<forall>f\<in>set fs. \<not> refs v f"
  shows "sum_list (map (occ v) fs) = 0"
  using assms by (induction fs) (simp_all add: occ_0_iff [symmetric])

text \<open>
  C7: in the smooth variant, with every face index within the vertices, a vertex that no
  face references has the count 0 and the sum \<open>(0,0,0)\<close> after the second loop, and its
  normal in the result is \<open>(0,0,0)\<close>: the third loop leaves every entry whose count is
  not positive as it is, whatever it holds, so nothing is divided or normalised there,
  and the computation succeeds.
\<close>

theorem unreferenced_vertex_keeps_zero_normal:
  assumes "\<forall>f\<in>set faces. face_in_range (length positions) f"
    and "v < length positions"
    and "\<forall>f\<in>set faces. unat (vx f) \<noteq> v \<and> unat (vy f) \<noteq> v \<and> unat (vz f) \<noteq> v"
  shows "\<exists>faceNormals vertexNormals counts.
           compute_faceNormals positions faces = Inr faceNormals \<and>
           accumulate faces faceNormals
             (replicate (length positions) vzero, replicate (length positions) 0)
               = Inr (vertexNormals, counts) \<and>
           counts ! v = 0 \<and> vertexNormals ! v = vec3 0 0 0 \<and>
           compute_vertexNormals positions faces = Inr (normalize_loop vertexNormals counts) \<and>
           normalize_loop vertexNormals counts ! v = vec3 0 0 0 \<and>
           (\<forall>vn cnt i. i < length vn \<and> i < length cnt \<and> cnt ! i \<le> 0 \<longrightarrow>
              normalize_loop vn cnt ! i = vn ! i)"
proof -
  obtain vn cnt where r:
    "accumulate faces (map (normal_of_face positions) faces)
       (replicate (length positions) vzero, replicate (length positions) 0) = Inr (vn, cnt)"
    "compute_vertexNormals positions faces = Inr (normalize_loop vn cnt)"
    "length vn = length positions" "length cnt = length positions"
    "\<forall>v<length positions.
        vn ! v = wsum v faces (map (normal_of_face positions) faces) \<and>
        cnt ! v = (int_incr ^^ sum_list (map (occ v) faces)) 0"
    using compute_vertexNormals_closed [OF assms(1)] by blast
  have nr: "\<forall>f\<in>set faces. \<not> refs v f"
    using assms(3) by (simp add: refs_def)
  have c: "cnt ! v = 0"
    using r(5) assms(2) by (simp add: count_unreferenced [OF nr])
  have n: "vn ! v = vec3 0 0 0"
    using r(5) assms(2) wsum_unreferenced [OF nr] by (simp add: vzero_def)
  have f: "normalize_loop vn cnt ! v = vec3 0 0 0"
    using nth_normalize_loop [of v vn cnt] r(3,4) assms(2) c n by simp
  have g: "\<forall>vn cnt i. i < length vn \<and> i < length cnt \<and> cnt ! i \<le> 0 \<longrightarrow>
              normalize_loop vn cnt ! i = vn ! i"
    by (simp add: nth_normalize_loop)
  show ?thesis
    using compute_faceNormals_closed [OF assms(1)] r(1,2) c n f g by blast
qed

lemma glm_cross_repeated:
  "glm_cross (vsub p p) b = vzero" "glm_cross a (vsub p p) = vzero" "glm_cross a a = vzero"
  by (simp_all add: glm_cross_def vsub_def vzero_def)

lemma nondegenerate_occ:
  assumes "nondegenerate positions f"
  shows "occ v f \<le> 1"
proof (rule ccontr)
  assume "\<not> occ v f \<le> 1"
  then have "unat (vx f) = unat (vy f) \<or> unat (vx f) = unat (vz f) \<or> unat (vy f) = unat (vz f)"
    by (auto simp: occ_def split: if_splits)
  then have "glm_cross (vsub (positions ! unat (vy f)) (positions ! unat (vx f)))
               (vsub (positions ! unat (vz f)) (positions ! unat (vx f))) = vzero"
    by (auto simp: glm_cross_repeated)
  then show False
    using assms by (simp add: nondegenerate_def)
qed

lemma weighted_normal:
  assumes "refs v f \<longrightarrow> nondegenerate positions f"
  shows "vmuls (normal_of_face positions f) (real (occ v f))
           = (if refs v f then normal_of_face positions f else vzero)"
proof (cases "refs v f")
  case True
  then have "occ v f \<le> 1" "occ v f \<noteq> 0"
    using assms nondegenerate_occ [of positions f v] occ_0_iff [of v f] by auto
  then have "occ v f = 1"
    by linarith
  then show ?thesis
    using True by simp
next
  case False
  then show ?thesis
    using occ_0_iff [of v f] by simp
qed

lemma occ_of_referencing:
  assumes "refs v f \<longrightarrow> nondegenerate positions f"
  shows "occ v f = (if refs v f then 1 else 0)"
proof (cases "refs v f")
  case True
  then have "occ v f \<le> 1" "occ v f \<noteq> 0"
    using assms nondegenerate_occ [of positions f v] occ_0_iff [of v f] by auto
  then show ?thesis
    using True by simp
next
  case False
  then show ?thesis
    using occ_0_iff [of v f] by simp
qed

lemma wsum_is_sum_over_referencing:
  assumes "\<forall>f\<in>set faces. refs v f \<longrightarrow> nondegenerate positions f"
  shows "wsum v faces (map (normal_of_face positions) faces)
           = vsum (map (normal_of_face positions) (filter (refs v) faces))"
  using assms by (induction faces) (simp_all add: weighted_normal)

lemma count_is_number_of_referencing:
  assumes "\<forall>f\<in>set faces. refs v f \<longrightarrow> nondegenerate positions f"
  shows "sum_list (map (occ v) faces) = length (filter (refs v) faces)"
  using assms by (induction faces) (simp_all add: occ_of_referencing [of v _ positions])

lemma int_incr_funpow_small:
  assumes "n \<le> 2147483647"
  shows "(int_incr ^^ n) 0 = int n"
  using assms by (induction n) (simp_all add: int_incr_def)

lemma glm_dot_self_zero_iff: "glm_dot s s = 0 \<longleftrightarrow> s = vzero"
proof (cases s)
  case (vec3 a b c)
  have nn: "0 \<le> a * a" "0 \<le> b * b" "0 \<le> c * c"
    by simp_all
  have "a * a + b * b + c * c = 0 \<longleftrightarrow> a = 0 \<and> b = 0 \<and> c = 0"
  proof
    assume "a * a + b * b + c * c = 0"
    then have "a * a = 0" "b * b = 0" "c * c = 0"
      using nn by linarith+
    then show "a = 0 \<and> b = 0 \<and> c = 0"
      by simp
  next
    assume "a = 0 \<and> b = 0 \<and> c = 0"
    then show "a * a + b * b + c * c = 0"
      by simp
  qed
  then show ?thesis
    by (simp add: vec3 glm_dot_def vzero_def)
qed

lemma glm_dot_vmuls: "glm_dot (vmuls s c) (vmuls s c) = glm_dot s s * (c * c)"
  by (simp add: glm_dot_def vmuls_def algebra_simps)

lemma glm_normalize_gives_unit:
  assumes "s \<noteq> vzero"
  shows "glm_dot (glm_normalize s) (glm_normalize s) = 1"
proof -
  have "0 \<le> glm_dot s s"
    by (simp add: glm_dot_def)
  then have pos: "0 < glm_dot s s"
    using assms glm_dot_self_zero_iff [of s] by linarith
  let ?r = "sqrt (glm_dot s s)"
  have r: "?r * ?r = glm_dot s s"
    using pos by simp
  have "glm_dot (glm_normalize s) (glm_normalize s) = glm_dot s s * (1 / (?r * ?r))"
    unfolding glm_normalize_def glm_inversesqrt_def glm_dot_vmuls by simp
  then show ?thesis
    unfolding r using pos by simp
qed

lemma glm_normalize_unit:
  assumes "glm_dot u u = 1"
  shows "glm_normalize u = u"
  using assms by (cases u) (simp add: glm_normalize_def glm_inversesqrt_def vmuls_def)

lemma normal_of_nondegenerate_unit:
  assumes "nondegenerate positions f"
  shows "glm_dot (normal_of_face positions f) (normal_of_face positions f) = 1"
  using assms
  by (simp add: normal_of_face_def face_normal_def nondegenerate_def glm_normalize_gives_unit)

lemma smooth_normal_closed:
  assumes "\<forall>f\<in>set faces. face_in_range (length positions) f"
    and "v < length positions"
    and "filter (refs v) faces \<noteq> []"
    and "\<forall>f\<in>set (filter (refs v) faces). nondegenerate positions f"
    and "length (filter (refs v) faces) \<le> 2147483647"
  shows "\<exists>normals. compute_vertexNormals positions faces = Inr normals \<and>
           length normals = length positions \<and>
           normals ! v
             = glm_normalize
                 (vdivs (vsum (map (normal_of_face positions) (filter (refs v) faces)))
                        (real (length (filter (refs v) faces))))"
proof -
  obtain vn cnt where r:
    "compute_vertexNormals positions faces = Inr (normalize_loop vn cnt)"
    "length vn = length positions" "length cnt = length positions"
    "\<forall>v<length positions.
        vn ! v = wsum v faces (map (normal_of_face positions) faces) \<and>
        cnt ! v = (int_incr ^^ sum_list (map (occ v) faces)) 0"
    using compute_vertexNormals_closed [OF assms(1)] by blast
  have nd: "\<forall>f\<in>set faces. refs v f \<longrightarrow> nondegenerate positions f"
    using assms(4) by simp
  have "cnt ! v = (int_incr ^^ length (filter (refs v) faces)) 0"
    using r(4) assms(2) count_is_number_of_referencing [OF nd] by simp
  then have c: "cnt ! v = int (length (filter (refs v) faces))"
    using int_incr_funpow_small [OF assms(5)] by simp
  then have cp: "0 < cnt ! v"
    using assms(3) by simp
  have "normalize_loop vn cnt ! v = glm_normalize (vdivs (vn ! v) (real_of_int (cnt ! v)))"
    using nth_normalize_loop [of v vn cnt] r(2,3) assms(2) cp by simp
  moreover have "vn ! v = vsum (map (normal_of_face positions) (filter (refs v) faces))"
    using r(4) assms(2) by (simp add: wsum_is_sum_over_referencing [OF nd])
  ultimately show ?thesis
    using r(1,2) c by (simp add: length_normalize_loop)
qed

text \<open>
  C4: in the smooth variant, with every face index within the vertices, take a vertex
  that some face references, whose referencing faces are not degenerate and are at most
  \<open>INT_MAX\<close> in number.  When the sum of their normals is not zero, the normal of the
  vertex is the normalisation of that sum divided by the number of those faces.  When
  exactly two faces reference the vertex, this is the normalised average of the two face
  normals when their sum is not zero, and it is the face normal itself when the two face
  normals are equal.  (In exact real arithmetic.)
\<close>

theorem smooth_vertex_normal:
  assumes "\<forall>f\<in>set faces. face_in_range (length positions) f"
    and "v < length positions"
    and "filter (refs v) faces \<noteq> []"
    and "\<forall>f\<in>set (filter (refs v) faces). nondegenerate positions f"
    and "length (filter (refs v) faces) \<le> 2147483647"
  shows "\<exists>normals.
           compute_vertexNormals positions faces = Inr normals \<and>
           (vsum (map (normal_of_face positions) (filter (refs v) faces)) \<noteq> vzero \<longrightarrow>
              normals ! v
                = glm_normalize
                    (vdivs (vsum (map (normal_of_face positions) (filter (refs v) faces)))
                           (real (length (filter (refs v) faces))))) \<and>
           (\<forall>f1 f2. filter (refs v) faces = [f1, f2] \<longrightarrow>
              (vadd (normal_of_face positions f1) (normal_of_face positions f2) \<noteq> vzero \<longrightarrow>
                 normals ! v
                   = glm_normalize
                       (vdivs (vadd (normal_of_face positions f1) (normal_of_face positions f2))
                              2)) \<and>
              (normal_of_face positions f1 = normal_of_face positions f2 \<longrightarrow>
                 normals ! v = normal_of_face positions f1))"
proof -
  let ?s = "vsum (map (normal_of_face positions) (filter (refs v) faces))"
  obtain normals where r: "compute_vertexNormals positions faces = Inr normals"
    and a: "normals ! v = glm_normalize (vdivs ?s (real (length (filter (refs v) faces))))"
    using smooth_normal_closed [OF assms] by blast
  have b: "\<forall>f1 f2. filter (refs v) faces = [f1, f2] \<longrightarrow>
      (vadd (normal_of_face positions f1) (normal_of_face positions f2) \<noteq> vzero \<longrightarrow>
         normals ! v
           = glm_normalize
               (vdivs (vadd (normal_of_face positions f1) (normal_of_face positions f2)) 2)) \<and>
      (normal_of_face positions f1 = normal_of_face positions f2 \<longrightarrow>
         normals ! v = normal_of_face positions f1)"
  proof (intro allI impI conjI)
    fix f1 f2
    assume two: "filter (refs v) faces = [f1, f2]"
    show avg: "normals ! v
        = glm_normalize
            (vdivs (vadd (normal_of_face positions f1) (normal_of_face positions f2)) 2)"
      using a by (simp add: two)
    assume same: "normal_of_face positions f1 = normal_of_face positions f2"
    have "nondegenerate positions f1"
      using assms(4) two by simp
    then have u: "glm_dot (normal_of_face positions f1) (normal_of_face positions f1) = 1"
      by (rule normal_of_nondegenerate_unit)
    have "vdivs (vadd (normal_of_face positions f1) (normal_of_face positions f1)) 2
        = normal_of_face positions f1"
      by (cases "normal_of_face positions f1") (simp add: vdivs_def vadd_def)
    then have "normals ! v = glm_normalize (normal_of_face positions f1)"
      using avg same by simp
    then show "normals ! v = normal_of_face positions f1"
      using glm_normalize_unit [OF u] by simp
  qed
  show ?thesis
    using r a b by blast
qed

lemma square_in_range: "\<forall>f\<in>set square_faces. face_in_range (length square_positions) f"
  by (simp add: square_faces_def square_positions_def face_in_range_def)

lemma square_refs_0: "filter (refs 0) square_faces = [vec3 0 1 2, vec3 0 2 3]"
  by (simp add: square_faces_def refs_def)

lemma square_normals:
  "normal_of_face square_positions (vec3 0 1 2) = vec3 0 0 1"
  "normal_of_face square_positions (vec3 0 2 3) = vec3 0 0 1"
  by (simp_all add: normal_of_face_def square_positions_def face_normal_def glm_normalize_def
      glm_cross_def vsub_def glm_dot_def glm_inversesqrt_def vmuls_def)

lemma square_nondegenerate:
  "\<forall>f\<in>set (filter (refs 0) square_faces). nondegenerate square_positions f"
  by (simp add: square_refs_0 nondegenerate_def square_positions_def glm_cross_def vsub_def
      vzero_def)

lemma ridge_in_range: "\<forall>f\<in>set ridge_faces. face_in_range (length ridge_positions) f"
  by (simp add: ridge_faces_def ridge_positions_def face_in_range_def)

lemma ridge_refs_0: "filter (refs 0) ridge_faces = [vec3 0 1 2, vec3 0 1 3]"
  by (simp add: ridge_faces_def refs_def)

lemma ridge_nondegenerate:
  "\<forall>f\<in>set (filter (refs 0) ridge_faces). nondegenerate ridge_positions f"
  by (simp add: ridge_refs_0 nondegenerate_def ridge_positions_def glm_cross_def vsub_def
      vzero_def)

lemma sqrt_25: "sqrt 25 = 5"
  by (rule real_sqrt_unique) simp_all

lemma sqrt_9_25: "sqrt (9 / 25) = 3 / 5"
  by (rule real_sqrt_unique) (simp_all add: power2_eq_square)

lemma ridge_normals:
  "normal_of_face ridge_positions (vec3 0 1 2) = vec3 (3 / 5) (4 / 5) 0"
  "normal_of_face ridge_positions (vec3 0 1 3) = vec3 (3 / 5) (- (4 / 5)) 0"
  by (simp_all add: normal_of_face_def ridge_positions_def face_normal_def glm_normalize_def
      glm_cross_def vsub_def glm_dot_def glm_inversesqrt_def vmuls_def sqrt_25)

lemma ridge_average:
  "glm_normalize (vdivs (vadd (vec3 (3 / 5) (4 / 5) 0) (vec3 (3 / 5) (- (4 / 5)) 0)) 2)
     = vec3 1 0 0"
  by (simp add: glm_normalize_def vdivs_def vadd_def glm_dot_def glm_inversesqrt_def vmuls_def
      sqrt_9_25)

theorem smooth_vertex_normal_witness:
  "list_all (face_in_range (length square_positions)) square_faces \<and>
   0 < length square_positions \<and>
   filter (refs 0) square_faces = [vec3 0 1 2, vec3 0 2 3] \<and>
   list_all (nondegenerate square_positions) (filter (refs 0) square_faces) \<and>
   normal_of_face square_positions (vec3 0 1 2) = normal_of_face square_positions (vec3 0 2 3) \<and>
   (\<exists>normals. compute_vertexNormals square_positions square_faces = Inr normals \<and>
      normals ! 0 = vec3 0 0 1) \<and>
   list_all (face_in_range (length ridge_positions)) ridge_faces \<and>
   0 < length ridge_positions \<and>
   filter (refs 0) ridge_faces = [vec3 0 1 2, vec3 0 1 3] \<and>
   list_all (nondegenerate ridge_positions) (filter (refs 0) ridge_faces) \<and>
   normal_of_face ridge_positions (vec3 0 1 2) = vec3 (3 / 5) (4 / 5) 0 \<and>
   normal_of_face ridge_positions (vec3 0 1 3) = vec3 (3 / 5) (- (4 / 5)) 0 \<and>
   (\<exists>normals. compute_vertexNormals ridge_positions ridge_faces = Inr normals \<and>
      normals ! 0 = vec3 1 0 0)"
proof -
  have p: "0 < length square_positions"
    by (simp add: square_positions_def)
  have ne: "filter (refs 0) square_faces \<noteq> []"
    by (simp add: square_refs_0)
  have le: "length (filter (refs 0) square_faces) \<le> 2147483647"
    by (simp add: square_refs_0)
  obtain normals where r: "compute_vertexNormals square_positions square_faces = Inr normals"
    and two: "\<forall>f1 f2. filter (refs 0) square_faces = [f1, f2] \<longrightarrow>
      (vadd (normal_of_face square_positions f1) (normal_of_face square_positions f2) \<noteq> vzero \<longrightarrow>
         normals ! 0
           = glm_normalize
               (vdivs (vadd (normal_of_face square_positions f1)
                            (normal_of_face square_positions f2)) 2)) \<and>
      (normal_of_face square_positions f1 = normal_of_face square_positions f2 \<longrightarrow>
         normals ! 0 = normal_of_face square_positions f1)"
    using smooth_vertex_normal [OF square_in_range p ne square_nondegenerate le] by blast
  have sq: "normals ! 0 = vec3 0 0 1"
    using two square_refs_0 square_normals by simp
  have p': "0 < length ridge_positions"
    by (simp add: ridge_positions_def)
  have ne': "filter (refs 0) ridge_faces \<noteq> []"
    by (simp add: ridge_refs_0)
  have le': "length (filter (refs 0) ridge_faces) \<le> 2147483647"
    by (simp add: ridge_refs_0)
  obtain normals' where r': "compute_vertexNormals ridge_positions ridge_faces = Inr normals'"
    and two': "\<forall>f1 f2. filter (refs 0) ridge_faces = [f1, f2] \<longrightarrow>
      (vadd (normal_of_face ridge_positions f1) (normal_of_face ridge_positions f2) \<noteq> vzero \<longrightarrow>
         normals' ! 0
           = glm_normalize
               (vdivs (vadd (normal_of_face ridge_positions f1)
                            (normal_of_face ridge_positions f2)) 2)) \<and>
      (normal_of_face ridge_positions f1 = normal_of_face ridge_positions f2 \<longrightarrow>
         normals' ! 0 = normal_of_face ridge_positions f1)"
    using smooth_vertex_normal [OF ridge_in_range p' ne' ridge_nondegenerate le'] by blast
  have nz: "vadd (normal_of_face ridge_positions (vec3 0 1 2))
                 (normal_of_face ridge_positions (vec3 0 1 3)) \<noteq> vzero"
    by (simp add: ridge_normals vadd_def vzero_def)
  have "normals' ! 0
      = glm_normalize
          (vdivs (vadd (normal_of_face ridge_positions (vec3 0 1 2))
                       (normal_of_face ridge_positions (vec3 0 1 3))) 2)"
    using two' ridge_refs_0 nz by blast
  then have rg: "normals' ! 0 = vec3 1 0 0"
    by (simp only: ridge_normals ridge_average)
  have a: "list_all (face_in_range (length square_positions)) square_faces"
    using square_in_range unfolding list_all_iff .
  have b: "list_all (nondegenerate square_positions) (filter (refs 0) square_faces)"
    using square_nondegenerate unfolding list_all_iff .
  have a': "list_all (face_in_range (length ridge_positions)) ridge_faces"
    using ridge_in_range unfolding list_all_iff .
  have b': "list_all (nondegenerate ridge_positions) (filter (refs 0) ridge_faces)"
    using ridge_nondegenerate unfolding list_all_iff .
  have e: "normal_of_face square_positions (vec3 0 1 2)
         = normal_of_face square_positions (vec3 0 2 3)"
    by (simp add: square_normals)
  show ?thesis
    using a p square_refs_0 b e r sq a' p' ridge_refs_0 b' ridge_normals r' rg
    by (intro conjI exI) assumption+
qed

lemma square_unref_4:
  "\<forall>f\<in>set square_faces. unat (vx f) \<noteq> 4 \<and> unat (vy f) \<noteq> 4 \<and> unat (vz f) \<noteq> 4"
  by (simp add: square_faces_def)

theorem unreferenced_vertex_keeps_zero_normal_witness:
  "list_all (face_in_range (length square_positions)) square_faces \<and>
   4 < length square_positions \<and>
   list_all (\<lambda>f. unat (vx f) \<noteq> 4 \<and> unat (vy f) \<noteq> 4 \<and> unat (vz f) \<noteq> 4) square_faces \<and>
   (\<exists>normals. compute_vertexNormals square_positions square_faces = Inr normals \<and>
      normals ! 4 = vec3 0 0 0)"
proof -
  have p: "4 < length square_positions"
    by (simp add: square_positions_def)
  show ?thesis
    using unreferenced_vertex_keeps_zero_normal [OF square_in_range p square_unref_4]
      square_in_range p square_unref_4
    unfolding list_all_iff by blast
qed

section \<open>Failures of the loaders and of the programs\<close>

lemma triangle_loaded:
  "loadSMF no_init (one_file ''m.smf'' triangle_smf) ''m.smf''
     = Some (triangle_positions, triangle_faces)"
proof -
  have vs: "map vertex_of_line (filter is_v_line (getlines [] triangle_smf)) = triangle_positions"
    by (simp add: triangle_lines is_v_line_def vertex_of_line_def float_value_def
        triangle_tokens reader_defs triangle_positions_def)
  have fs: "map face_of_line (filter is_f_line (getlines [] triangle_smf)) = triangle_faces"
    by (simp add: triangle_lines is_f_line_def face_of_line_def indices_of_line_def
        triangle_tokens reader_defs triangle_faces_def)
  show ?thesis
    using triangle_valid by (simp add: loadSMF_def one_file_def loadSMF_loop_valid vs fs)
qed

lemma zero_face_loaded:
  "loadSMF no_init (one_file ''m.smf'' ''f 0 1 2'') ''m.smf'' = Some ([], [vec3 (- 1) 0 1])"
proof -
  have f: "is_f_line ''f 0 1 2''"
    by (simp add: is_f_line_def zero_face_tokens)
  have "three_uints ''f 0 1 2''"
    by (simp add: three_uints_def is_uint_token_def zero_face_tokens isdigit_def dec_value_def
        digit_val_def)
  then have v: "\<forall>l\<in>set [''f 0 1 2'']. valid_line l"
    using f by (simp add: valid_line_def)
  have nv: "\<not> is_v_line ''f 0 1 2''"
    by (simp add: is_v_line_def zero_face_tokens)
  have fl: "face_of_line ''f 0 1 2'' = vec3 (- 1) 0 1"
    by (simp add: face_of_line_def indices_of_line_def zero_face_tokens dec_value_def
        digit_val_def)
  have "loadSMF_loop no_init 0 [''f 0 1 2''] ([], [])
      = ([] @ map vertex_of_line (filter is_v_line [''f 0 1 2'']),
         [] @ map face_of_line (filter is_f_line [''f 0 1 2'']))"
    by (rule loadSMF_loop_valid [OF v])
  also have "\<dots> = ([], [vec3 (- 1) 0 1])"
    using f nv fl by simp
  finally have l: "loadSMF_loop no_init 0 [''f 0 1 2''] ([], []) = ([], [vec3 (- 1) 0 1])" .
  have g: "getlines [] ''f 0 1 2'' = [''f 0 1 2'']"
    by simp
  have o: "one_file ''m.smf'' ''f 0 1 2'' ''m.smf'' = Some ''f 0 1 2''"
    by (simp add: one_file_def)
  show ?thesis
    by (simp only: loadSMF_def o option.case g l)
qed

lemma loadSMF_None_iff: "loadSMF ind fs filename = None \<longleftrightarrow> fs filename = None"
  by (simp add: loadSMF_def split: option.splits)

lemma not_list_all_face:
  assumes "\<not> list_all (face_in_range n) faces"
  shows "\<exists>f\<in>set faces. \<not> face_in_range n f"
  using assms by (simp add: list_all_iff)

lemma build_flat_result:
  "build_flat positions faces []
     = (if list_all (face_in_range (length positions)) faces
        then Inr (concat (map (flat_triple positions) faces)) else Inl OutOfRange)"
proof (cases "list_all (face_in_range (length positions)) faces")
  case True
  then have "\<forall>f\<in>set faces. face_in_range (length positions) f"
    by (simp add: list_all_iff)
  then show ?thesis
    using True build_flat_closed [of faces positions "[]"] by simp
next
  case False
  then obtain f where "f \<in> set faces" "\<not> face_in_range (length positions) f"
    using not_list_all_face by blast
  then show ?thesis
    using False build_flat_out_of_range by simp
qed

lemma build_smooth_succeeds:
  assumes "\<forall>f\<in>set faces. face_in_range (length positions) f"
    and "length vertexNormals = length positions"
  shows "\<exists>vs. build_smooth positions vertexNormals faces vertices = Inr vs"
  using assms by (induction faces arbitrary: vertices) simp_all

lemma smooth_result:
  "(if list_all (face_in_range (length positions)) faces
    then \<exists>normals vs. compute_vertexNormals positions faces = Inr normals \<and>
           build_smooth positions normals faces [] = Inr vs
    else compute_vertexNormals positions faces = Inl OutOfRange)"
proof (cases "list_all (face_in_range (length positions)) faces")
  case True
  then have a: "\<forall>f\<in>set faces. face_in_range (length positions) f"
    by (simp add: list_all_iff)
  obtain vn cnt where n: "compute_vertexNormals positions faces = Inr (normalize_loop vn cnt)"
    "length vn = length positions"
    using compute_vertexNormals_closed [OF a] by blast
  obtain vs where "build_smooth positions (normalize_loop vn cnt) faces [] = Inr vs"
    using build_smooth_succeeds [OF a, of "normalize_loop vn cnt" "[]"] n(2)
    by (auto simp: length_normalize_loop)
  then show ?thesis
    using True n(1) by simp
next
  case False
  then obtain f where "f \<in> set faces" "\<not> face_in_range (length positions) f"
    using not_list_all_face by blast
  then show ?thesis
    using False compute_vertexNormals_out_of_range by simp
qed

lemma loadSMF_Some_file:
  assumes "loadSMF ind fs filename = Some m"
  shows "\<exists>y. fs filename = Some y"
  using assms loadSMF_None_iff [of ind fs filename] by (cases "fs filename") simp_all

lemma main1_Exit_iff:
  "main1 e argv = Exit c \<longleftrightarrow>
     c = - 1 \<and>
     (length argv < 2 \<or> e_files e (argv ! 1) = None \<or>
      \<not> index_out_of_range (loadSMF (e_indet e) (e_files e) (argv ! 1)) \<and>
      (\<not> e_glfwInit e \<or> \<not> e_createWindow e \<or> \<not> e_gladLoad e))"
  by (auto simp: main1_def index_out_of_range_def build_flat_result loadSMF_None_iff Let_def
      split: option.splits dest: loadSMF_Some_file)

lemma main1_Undefined_iff:
  "main1 e argv = Undefined \<longleftrightarrow>
     \<not> length argv < 2 \<and> index_out_of_range (loadSMF (e_indet e) (e_files e) (argv ! 1))"
  by (auto simp: main1_def index_out_of_range_def build_flat_result Let_def
      split: option.splits)

lemma main2_loaded:
  assumes "\<not> length argv < 2"
    and "loadSMF (e_indet e) (e_files e) (argv ! 1) = Some (positions, faces)"
  shows "(\<not> list_all (face_in_range (length positions)) faces \<longrightarrow> main2 e argv = Undefined) \<and>
         (list_all (face_in_range (length positions)) faces \<longrightarrow>
            (\<not> e_glfwInit e \<or> \<not> e_createWindow e \<or> \<not> e_gladLoad e \<longrightarrow>
               main2 e argv = Exit (- 1)) \<and>
            (e_glfwInit e \<and> e_createWindow e \<and> e_gladLoad e \<longrightarrow>
               (\<exists>a. main2 e argv = Enters a)))"
proof (cases "list_all (face_in_range (length positions)) faces")
  case True
  then obtain normals vs where "compute_vertexNormals positions faces = Inr normals"
    "build_smooth positions normals faces [] = Inr vs"
    using smooth_result [of positions faces] by auto
  then show ?thesis
    using True assms by (simp add: main2_def load_smf_eq Let_def)
next
  case False
  then have "compute_vertexNormals positions faces = Inl OutOfRange"
    using smooth_result [of positions faces] by simp
  then show ?thesis
    using False assms by (simp add: main2_def load_smf_eq)
qed

lemma main2_Exit_iff:
  "main2 e argv = Exit c \<longleftrightarrow>
     c = - 1 \<and>
     (length argv < 2 \<or> e_files e (argv ! 1) = None \<or>
      \<not> index_out_of_range (load_smf (e_indet e) (e_files e) (argv ! 1)) \<and>
      (\<not> e_glfwInit e \<or> \<not> e_createWindow e \<or> \<not> e_gladLoad e))"
proof (cases "length argv < 2")
  case True
  then show ?thesis
    by (auto simp: main2_def)
next
  case False
  show ?thesis
  proof (cases "loadSMF (e_indet e) (e_files e) (argv ! 1)")
    case None
    then have "e_files e (argv ! 1) = None"
      using loadSMF_None_iff [of "e_indet e" "e_files e" "argv ! 1"] by simp
    then show ?thesis
      using False None by (auto simp: main2_def load_smf_eq)
  next
    case (Some m)
    obtain positions faces where m: "m = (positions, faces)"
      by (cases m)
    have nn: "e_files e (argv ! 1) \<noteq> None"
      using Some loadSMF_None_iff [of "e_indet e" "e_files e" "argv ! 1"] by simp
    have io: "index_out_of_range (load_smf (e_indet e) (e_files e) (argv ! 1))
        \<longleftrightarrow> \<not> list_all (face_in_range (length positions)) faces"
      using Some m by (simp add: index_out_of_range_def load_smf_eq)
    show ?thesis
      using main2_loaded [OF False Some [unfolded m]] False nn io by auto
  qed
qed

lemma main2_Undefined_iff:
  "main2 e argv = Undefined \<longleftrightarrow>
     \<not> length argv < 2 \<and> index_out_of_range (load_smf (e_indet e) (e_files e) (argv ! 1))"
proof (cases "length argv < 2")
  case True
  then show ?thesis
    by (auto simp: main2_def)
next
  case False
  show ?thesis
  proof (cases "loadSMF (e_indet e) (e_files e) (argv ! 1)")
    case None
    then show ?thesis
      using False by (auto simp: main2_def load_smf_eq index_out_of_range_def)
  next
    case (Some m)
    obtain positions faces where m: "m = (positions, faces)"
      by (cases m)
    have io: "index_out_of_range (load_smf (e_indet e) (e_files e) (argv ! 1))
        \<longleftrightarrow> \<not> list_all (face_in_range (length positions)) faces"
      using Some m by (simp add: index_out_of_range_def load_smf_eq)
    show ?thesis
      using main2_loaded [OF False Some [unfolded m]] False io by auto
  qed
qed

lemma startup_cases:
  "(\<exists>a. r = Enters a) \<longleftrightarrow> r \<noteq> Undefined \<and> (\<forall>c. r \<noteq> Exit c)"
  by (cases r) simp_all

text \<open>
  C6, as stated, fails in its last part: with an argument given and the file readable,
  part1.cpp still exits with \<open>-1\<close> when \<open>glfwInit\<close> fails.
\<close>

theorem exit_without_usage_or_io_error:
  "\<not> length [''part1'', ''m.smf''] < 2 \<and>
   e_files no_glfw_env ([''part1'', ''m.smf''] ! 1) \<noteq> None \<and>
   main1 no_glfw_env [''part1'', ''m.smf''] = Exit (- 1)"
proof -
  have "build_flat triangle_positions triangle_faces []
      = Inr (concat (map (flat_triple triangle_positions) triangle_faces))"
    using build_flat_closed [OF triangle_in_range, of "[]"] by simp
  then have "main1 no_glfw_env [''part1'', ''m.smf''] = Exit (- 1)"
    by (simp add: main1_def no_glfw_env_def triangle_loaded)
  then show ?thesis
    by (simp add: no_glfw_env_def one_file_def)
qed

text \<open>
  C6, amended: each loader fails exactly when the file cannot be opened, and succeeds on
  every file that can, whatever its content.  The start-up of either program ends in
  exactly one of three ways.  It exits, always with the status \<open>-1\<close>, exactly when the
  argument is missing, or the file cannot be opened, or every face index of the loaded
  mesh is below the number of vertices and \<open>glfwInit\<close>, the creation of the window or the
  loading of OpenGL fails.  Its behaviour is undefined (the normal computation reads
  beyond the vertices, which can end the process with a memory fault instead of an exit
  status of the program) exactly when an argument is given, the file is opened and some
  face index of the loaded mesh is not below the number of vertices.  Otherwise it enters
  the render loop.
  In particular a missing argument and a file that cannot be opened always end in the
  status \<open>-1\<close>.
\<close>

theorem failures_of_loader_and_program:
  "(loadSMF ind fs filename = None \<longleftrightarrow> fs filename = None) \<and>
   (load_smf ind fs filename = None \<longleftrightarrow> fs filename = None) \<and>
   (main1 e argv = Exit c \<longleftrightarrow>
      c = - 1 \<and>
      (length argv < 2 \<or> e_files e (argv ! 1) = None \<or>
       \<not> index_out_of_range (loadSMF (e_indet e) (e_files e) (argv ! 1)) \<and>
       (\<not> e_glfwInit e \<or> \<not> e_createWindow e \<or> \<not> e_gladLoad e))) \<and>
   (main1 e argv = Undefined \<longleftrightarrow>
      \<not> length argv < 2 \<and>
      index_out_of_range (loadSMF (e_indet e) (e_files e) (argv ! 1))) \<and>
   ((\<exists>a. main1 e argv = Enters a) \<longleftrightarrow>
      \<not> length argv < 2 \<and> e_files e (argv ! 1) \<noteq> None \<and>
      \<not> index_out_of_range (loadSMF (e_indet e) (e_files e) (argv ! 1)) \<and>
      e_glfwInit e \<and> e_createWindow e \<and> e_gladLoad e) \<and>
   (main2 e argv = Exit c \<longleftrightarrow>
      c = - 1 \<and>
      (length argv < 2 \<or> e_files e (argv ! 1) = None \<or>
       \<not> index_out_of_range (load_smf (e_indet e) (e_files e) (argv ! 1)) \<and>
       (\<not> e_glfwInit e \<or> \<not> e_createWindow e \<or> \<not> e_gladLoad e))) \<and>
   (main2 e argv = Undefined \<longleftrightarrow>
      \<not> length argv < 2 \<and>
      index_out_of_range (load_smf (e_indet e) (e_files e) (argv ! 1))) \<and>
   ((\<exists>a. main2 e argv = Enters a) \<longleftrightarrow>
      \<not> length argv < 2 \<and> e_files e (argv ! 1) \<noteq> None \<and>
      \<not> index_out_of_range (load_smf (e_indet e) (e_files e) (argv ! 1)) \<and>
      e_glfwInit e \<and> e_createWindow e \<and> e_gladLoad e) \<and>
   (length argv < 2 \<or> e_files e (argv ! 1) = None \<longrightarrow>
      main1 e argv = Exit (- 1) \<and> main2 e argv = Exit (- 1))"
proof -
  have l1: "loadSMF ind fs filename = None \<longleftrightarrow> fs filename = None"
    by (rule loadSMF_None_iff)
  have l2: "load_smf ind fs filename = None \<longleftrightarrow> fs filename = None"
    by (simp add: load_smf_eq loadSMF_None_iff)
  have io1: "e_files e (argv ! 1) = None \<Longrightarrow>
      \<not> index_out_of_range (loadSMF (e_indet e) (e_files e) (argv ! 1))"
    by (simp add: index_out_of_range_def loadSMF_def)
  have io2: "e_files e (argv ! 1) = None \<Longrightarrow>
      \<not> index_out_of_range (load_smf (e_indet e) (e_files e) (argv ! 1))"
    by (simp add: index_out_of_range_def load_smf_eq loadSMF_def)
  have x1: "(\<forall>c. main1 e argv \<noteq> Exit c) \<longleftrightarrow>
      \<not> (length argv < 2 \<or> e_files e (argv ! 1) = None \<or>
         \<not> index_out_of_range (loadSMF (e_indet e) (e_files e) (argv ! 1)) \<and>
         (\<not> e_glfwInit e \<or> \<not> e_createWindow e \<or> \<not> e_gladLoad e))"
    by (simp add: main1_Exit_iff)
  have x2: "(\<forall>c. main2 e argv \<noteq> Exit c) \<longleftrightarrow>
      \<not> (length argv < 2 \<or> e_files e (argv ! 1) = None \<or>
         \<not> index_out_of_range (load_smf (e_indet e) (e_files e) (argv ! 1)) \<and>
         (\<not> e_glfwInit e \<or> \<not> e_createWindow e \<or> \<not> e_gladLoad e))"
    by (simp add: main2_Exit_iff)
  have e1: "(\<exists>a. main1 e argv = Enters a) \<longleftrightarrow>
      \<not> length argv < 2 \<and> e_files e (argv ! 1) \<noteq> None \<and>
      \<not> index_out_of_range (loadSMF (e_indet e) (e_files e) (argv ! 1)) \<and>
      e_glfwInit e \<and> e_createWindow e \<and> e_gladLoad e"
    unfolding startup_cases main1_Undefined_iff x1 using io1 by auto
  have e2: "(\<exists>a. main2 e argv = Enters a) \<longleftrightarrow>
      \<not> length argv < 2 \<and> e_files e (argv ! 1) \<noteq> None \<and>
      \<not> index_out_of_range (load_smf (e_indet e) (e_files e) (argv ! 1)) \<and>
      e_glfwInit e \<and> e_createWindow e \<and> e_gladLoad e"
    unfolding startup_cases main2_Undefined_iff x2 using io2 by auto
  have u: "length argv < 2 \<or> e_files e (argv ! 1) = None \<longrightarrow>
      main1 e argv = Exit (- 1) \<and> main2 e argv = Exit (- 1)"
    unfolding main1_Exit_iff main2_Exit_iff by blast
  show ?thesis
    by (intro conjI l1 l2 main1_Exit_iff main1_Undefined_iff e1 main2_Exit_iff
        main2_Undefined_iff e2 u)
qed

lemma x_smf_missing: "e_files good_env ''x.smf'' = None"
  by (simp add: good_env_def one_file_def)

lemma triangle_indices_in_range:
  "\<not> index_out_of_range (Some (triangle_positions, triangle_faces))"
  by (simp add: index_out_of_range_def triangle_positions_def triangle_faces_def
      face_in_range_def)

lemma zero_face_out_of_range: "index_out_of_range (Some ([], [vec3 (- 1) 0 1]))"
  by (simp add: index_out_of_range_def face_in_range_def)

theorem failures_of_loader_and_program_witness:
  "e_files good_env ''x.smf'' = None \<and>
   loadSMF no_init (e_files good_env) ''x.smf'' = None \<and>
   load_smf no_init (e_files good_env) ''x.smf'' = None \<and>
   length [''part1''] < 2 \<and>
   main1 good_env [''part1''] = Exit (- 1) \<and>
   main2 good_env [''part1''] = Exit (- 1) \<and>
   main1 good_env [''part1'', ''x.smf''] = Exit (- 1) \<and>
   main2 good_env [''part1'', ''x.smf''] = Exit (- 1) \<and>
   \<not> e_glfwInit no_glfw_env \<and>
   loadSMF (e_indet no_glfw_env) (e_files no_glfw_env) ''m.smf''
     = Some (triangle_positions, triangle_faces) \<and>
   \<not> index_out_of_range (Some (triangle_positions, triangle_faces)) \<and>
   main1 no_glfw_env [''part1'', ''m.smf''] = Exit (- 1) \<and>
   main2 no_glfw_env [''part1'', ''m.smf''] = Exit (- 1) \<and>
   loadSMF (e_indet bad_index_env) (e_files bad_index_env) ''m.smf''
     = Some ([], [vec3 (- 1) 0 1]) \<and>
   index_out_of_range (Some ([], [vec3 (- 1) 0 1])) \<and>
   main1 bad_index_env [''part1'', ''m.smf''] = Undefined \<and>
   main2 bad_index_env [''part1'', ''m.smf''] = Undefined \<and>
   e_glfwInit good_env \<and> e_createWindow good_env \<and> e_gladLoad good_env \<and>
   (\<exists>a. main1 good_env [''part1'', ''m.smf''] = Enters a) \<and>
   (\<exists>a. main2 good_env [''part1'', ''m.smf''] = Enters a)"
proof -
  have ld: "loadSMF no_init (e_files good_env) ''x.smf'' = None"
    "load_smf no_init (e_files good_env) ''x.smf'' = None"
    using failures_of_loader_and_program [of no_init "e_files good_env" "''x.smf''"
        good_env "[''part1'']" "- 1"] x_smf_missing
    by simp_all
  have us: "main1 good_env [''part1''] = Exit (- 1)" "main2 good_env [''part1''] = Exit (- 1)"
    using failures_of_loader_and_program [of no_init "e_files good_env" "''x.smf''"
        good_env "[''part1'']" "- 1"]
    by simp_all
  have io: "main1 good_env [''part1'', ''x.smf''] = Exit (- 1)"
    "main2 good_env [''part1'', ''x.smf''] = Exit (- 1)"
    using failures_of_loader_and_program [of no_init "e_files good_env" "''x.smf''"
        good_env "[''part1'', ''x.smf'']" "- 1"] x_smf_missing
    by simp_all
  have g: "\<not> e_glfwInit no_glfw_env"
    by (simp add: no_glfw_env_def)
  have gf: "e_files no_glfw_env ''m.smf'' \<noteq> None"
    by (simp add: no_glfw_env_def one_file_def)
  have gl: "loadSMF (e_indet no_glfw_env) (e_files no_glfw_env) ''m.smf''
      = Some (triangle_positions, triangle_faces)"
    by (simp add: no_glfw_env_def triangle_loaded)
  have gm: "main1 no_glfw_env [''part1'', ''m.smf''] = Exit (- 1)"
    "main2 no_glfw_env [''part1'', ''m.smf''] = Exit (- 1)"
    using failures_of_loader_and_program [of no_init "e_files good_env" "''x.smf''"
        no_glfw_env "[''part1'', ''m.smf'']" "- 1"] g gl triangle_indices_in_range
    by (simp_all add: load_smf_eq)
  have bl: "loadSMF (e_indet bad_index_env) (e_files bad_index_env) ''m.smf''
      = Some ([], [vec3 (- 1) 0 1])"
    by (simp add: bad_index_env_def zero_face_loaded)
  have bm: "main1 bad_index_env [''part1'', ''m.smf''] = Undefined"
    "main2 bad_index_env [''part1'', ''m.smf''] = Undefined"
    using failures_of_loader_and_program [of no_init "e_files good_env" "''x.smf''"
        bad_index_env "[''part1'', ''m.smf'']" "- 1"] bl zero_face_out_of_range
    by (simp_all add: load_smf_eq)
  have ok: "e_glfwInit good_env" "e_createWindow good_env" "e_gladLoad good_env"
    by (simp_all add: good_env_def)
  have okf: "e_files good_env ''m.smf'' \<noteq> None"
    by (simp add: good_env_def one_file_def)
  have okl: "loadSMF (e_indet good_env) (e_files good_env) ''m.smf''
      = Some (triangle_positions, triangle_faces)"
    by (simp add: good_env_def triangle_loaded)
  have en: "\<exists>a. main1 good_env [''part1'', ''m.smf''] = Enters a"
    "\<exists>a. main2 good_env [''part1'', ''m.smf''] = Enters a"
    using failures_of_loader_and_program [of no_init "e_files good_env" "''x.smf''"
        good_env "[''part1'', ''m.smf'']" "- 1"] ok okf okl triangle_indices_in_range
    by (simp_all add: load_smf_eq)
  have len: "length [''part1''] < 2"
    by simp
  show ?thesis
    by (intro conjI x_smf_missing ld len us io g gl triangle_indices_in_range gm bl
        zero_face_out_of_range bm ok en)
qed

section \<open>Projection\<close>

lemma foldl_vadd: "foldl vadd a ps = vadd a (vsum ps)"
  by (induction ps arbitrary: a) (simp_all add: vadd_assoc)

lemma vmuls_vadd: "vmuls (vadd a b) k = vadd (vmuls a k) (vmuls b k)"
  by (simp add: vmuls_def vadd_def algebra_simps)

lemma vmuls_vzero: "vmuls vzero k = vzero"
  by (simp add: vmuls_def vzero_def)

lemma vsum_scale: "vsum (map (\<lambda>p. vmuls p k) ps) = vmuls (vsum ps) k"
  by (induction ps) (simp_all add: vmuls_vadd vmuls_vzero)

lemma vdivs_vmuls: "vdivs (vmuls s k) n = vmuls (vdivs s n) k"
  by (simp add: vmuls_def vdivs_def)

lemma centroid_scale: "centroid_of (scale_mesh k ps) = vmuls (centroid_of ps) k"
  by (simp add: centroid_of_def scale_mesh_def foldl_vadd vsum_scale vdivs_vmuls)

lemma glm_length_scale:
  "glm_length (vsub (vmuls p k) (vmuls c k)) = \<bar>k\<bar> * glm_length (vsub p c)"
proof -
  have "glm_dot (vsub (vmuls p k) (vmuls c k)) (vsub (vmuls p k) (vmuls c k))
      = k\<^sup>2 * glm_dot (vsub p c) (vsub p c)"
    by (simp add: glm_dot_def vsub_def vmuls_def power2_eq_square algebra_simps)
  then show ?thesis
    by (simp add: glm_length_def real_sqrt_mult)
qed

lemma max_radius_scale_gen:
  "foldl (\<lambda>maxRadius p. max maxRadius (glm_length (vsub p (vmuls c k)))) (\<bar>k\<bar> * m)
     (map (\<lambda>p. vmuls p k) ps)
   = \<bar>k\<bar> * foldl (\<lambda>maxRadius p. max maxRadius (glm_length (vsub p c))) m ps"
proof (induction ps arbitrary: m)
  case Nil
  show ?case by simp
next
  case (Cons p ps)
  have "max (\<bar>k\<bar> * m) (glm_length (vsub (vmuls p k) (vmuls c k)))
      = \<bar>k\<bar> * max m (glm_length (vsub p c))"
    by (simp add: glm_length_scale max_mult_distrib_left)
  then show ?case
    using Cons.IH [of "max m (glm_length (vsub p c))"] by simp
qed

lemma max_radius_scale:
  "max_radius (scale_mesh k ps) (centroid_of (scale_mesh k ps))
     = \<bar>k\<bar> * max_radius ps (centroid_of ps)"
proof -
  have "max_radius (scale_mesh k ps) (centroid_of (scale_mesh k ps))
      = foldl (\<lambda>maxRadius p. max maxRadius (glm_length (vsub p (vmuls (centroid_of ps) k))))
          (\<bar>k\<bar> * 0) (map (\<lambda>p. vmuls p k) ps)"
    unfolding max_radius_def centroid_scale by (simp add: scale_mesh_def)
  also have "\<dots> = \<bar>k\<bar> * max_radius ps (centroid_of ps)"
    unfolding max_radius_def by (rule max_radius_scale_gen)
  finally show ?thesis .
qed

lemma foldl_max_Max:
  "foldl (\<lambda>m p. max m (g p)) m0 ps = Max (insert m0 (g ` set ps))"
proof (induction ps arbitrary: m0)
  case Nil
  show ?case by simp
next
  case (Cons p ps)
  have "Max (insert (max m0 (g p)) (g ` set ps)) = Max (insert m0 (insert (g p) (g ` set ps)))"
    by (cases "g ` set ps = {}") (simp_all add: max.assoc)
  then show ?case
    using Cons.IH [of "max m0 (g p)"] by simp
qed

lemma max_radius_is_Max:
  assumes "positions \<noteq> []"
  shows "max_radius positions c = Max ((\<lambda>p. glm_length (vsub p c)) ` set positions)"
proof -
  let ?g = "\<lambda>p. glm_length (vsub p c)"
  have nn: "0 \<le> ?g (hd positions)"
    by (simp add: glm_length_def glm_dot_def)
  have "?g (hd positions) \<in> ?g ` set positions"
    using assms by simp
  then have "?g (hd positions) \<le> Max (?g ` set positions)"
    by (intro Max_ge) simp_all
  then have "0 \<le> Max (?g ` set positions)"
    using nn by linarith
  then have "Max (insert 0 (?g ` set positions)) = Max (?g ` set positions)"
    using assms by (simp add: max_absorb2)
  then show ?thesis
    by (simp add: max_radius_def foldl_max_Max)
qed

text \<open>
  C8: the half-extent of the orthographic projection, in both programs, is twice the
  bounding radius of the mesh, which for a mesh with a vertex is the greatest distance of
  a vertex from the centroid; scaling the mesh by \<open>k\<close> multiplies the half-extent by
  \<open>\<bar>k\<bar>\<close>, that is by \<open>k\<close> when \<open>k\<close> is not negative; and the perspective projection is
  built from 45 degrees, near 0.01 and far 100 whatever the mesh.  (In exact real
  arithmetic.)
\<close>

theorem orthographic_extent_scales_perspective_fixed:
  "ortho_half_extent (scale_mesh k positions) = \<bar>k\<bar> * ortho_half_extent positions \<and>
   (0 \<le> k \<longrightarrow> ortho_half_extent (scale_mesh k positions) = k * ortho_half_extent positions) \<and>
   ortho_half_extent positions = 2 * max_radius positions (centroid_of positions) \<and>
   (positions \<noteq> [] \<longrightarrow>
      max_radius positions (centroid_of positions)
        = Max ((\<lambda>p. glm_length (vsub p (centroid_of positions))) ` set positions)) \<and>
   projection_of False aspect (max_radius positions (centroid_of positions))
     = ortho (- ortho_half_extent positions * aspect) (ortho_half_extent positions * aspect)
         (- ortho_half_extent positions) (ortho_half_extent positions) (- 100) 100 \<and>
   projection_of True aspect (max_radius positions (centroid_of positions))
     = perspective (glm_radians 45) aspect 0.01 100"
  using max_radius_scale [of k positions] max_radius_is_Max [of positions "centroid_of positions"]
  by (simp add: ortho_half_extent_def projection_of_def Let_def)

theorem orthographic_extent_scales_perspective_fixed_witness:
  "(0::real) \<le> 3 \<and> triangle_positions \<noteq> [] \<and>
   ortho_half_extent (scale_mesh 3 triangle_positions) = 3 * ortho_half_extent triangle_positions \<and>
   max_radius triangle_positions (centroid_of triangle_positions)
     = Max ((\<lambda>p. glm_length (vsub p (centroid_of triangle_positions))) ` set triangle_positions)"
proof -
  have "triangle_positions \<noteq> []"
    by (simp add: triangle_positions_def)
  then show ?thesis
    using orthographic_extent_scales_perspective_fixed [of 3 triangle_positions 1]
    by simp
qed

end
